theory Spec2Isabelle
  imports Main
begin

section \<open>JavaScript strings\<close>

text \<open>
  A JavaScript string is a sequence of UTF-16 code units; \<open>.length\<close>, \<open>substring\<close>,
  \<open>includes\<close>, \<open>split\<close> and the regular expression engine (without the \<open>u\<close> flag) all
  count and compare code units. A string is therefore modelled as the list of its code
  units, each a natural number (below 65536 for a real string; no function below depends
  on that bound). \<open>js\<close> embeds an ASCII literal of the source.
\<close>

type_synonym jsstring = "nat list"

definition js :: "string \<Rightarrow> jsstring" where
  "js s = map of_char s"

text \<open>
  The lower-case form of an ASCII code unit: the capitals \<open>A\<close>..\<open>Z\<close> (65..90) go to
  \<open>a\<close>..\<open>z\<close>, every other unit below 128 is kept.
\<close>

definition lowerUnit :: "nat \<Rightarrow> nat" where
  "lowerUnit c = (if 65 \<le> c \<and> c \<le> 90 then c + 32 else c)"

definition isAscii :: "jsstring \<Rightarrow> bool" where
  "isAscii s \<longleftrightarrow> list_all (\<lambda>c. c < 128) s"

text \<open>
  \<open>String.prototype.toLowerCase\<close> follows the Unicode case tables of the platform, which
  are not part of the repository: outside ASCII it maps, among many others, the KELVIN
  SIGN U+212A to \<open>k\<close> and U+0130 to \<open>i\<close> followed by U+0307, it reads surrogate pairs as
  one character, and the lower-case form of a capital sigma depends on its neighbours. The
  function is therefore a parameter of the model (the field \<open>toLowerCase\<close> of the
  environment below). What the tables fix for ASCII, and all that is assumed of the
  parameter: a stretch of ASCII units is lowered unit by unit where it stands, whatever
  surrounds it, and nothing is put before a stretch at the start or behind a stretch at
  the end of the string.
\<close>

definition lowersAscii :: "(jsstring \<Rightarrow> jsstring) \<Rightarrow> bool" where
  "lowersAscii lowerCase \<longleftrightarrow>
     (\<forall>a m b. isAscii m \<longrightarrow>
        (\<exists>a' b'. lowerCase (a @ m @ b) = a' @ map lowerUnit m @ b' \<and>
                 (a = [] \<longrightarrow> a' = []) \<and> (b = [] \<longrightarrow> b' = [])))"

text \<open>\<open>String.prototype.startsWith\<close>, \<open>includes\<close> and \<open>endsWith\<close> (code-unit comparison).\<close>

fun startsWith :: "jsstring \<Rightarrow> jsstring \<Rightarrow> bool" where
  "startsWith s [] = True"
| "startsWith [] (c # p) = False"
| "startsWith (x # s) (c # p) = (x = c \<and> startsWith s p)"

fun str_includes :: "jsstring \<Rightarrow> jsstring \<Rightarrow> bool" where
  "str_includes [] p = startsWith [] p"
| "str_includes (x # s) p = (startsWith (x # s) p \<or> str_includes s p)"

definition endsWith :: "jsstring \<Rightarrow> jsstring \<Rightarrow> bool" where
  "endsWith s p = startsWith (rev s) (rev p)"

section \<open>Error classifier (\<open>Downloader.parseYtDlpError\<close>)\<close>

definition MSG_PRIVATE :: jsstring where
  "MSG_PRIVATE = js ''This content is private or requires authentication''"

definition MSG_REGION :: jsstring where
  "MSG_REGION = js ''This content is not available in your region''"

definition MSG_GONE :: jsstring where
  "MSG_GONE = js ''This content is no longer available''"

definition MSG_UNSUPPORTED :: jsstring where
  "MSG_UNSUPPORTED = js ''This URL is not supported''"

definition MSG_AUTH :: jsstring where
  "MSG_AUTH = js ''Authentication required to access this content''"

definition MSG_GENERIC :: jsstring where
  "MSG_GENERIC = js ''Failed to download content''"

definition parseYtDlpError :: "(jsstring \<Rightarrow> jsstring) \<Rightarrow> jsstring \<Rightarrow> jsstring" where
  "parseYtDlpError lowerCase errorOutput =
     (let lowerError = lowerCase errorOutput in
      if str_includes lowerError (js ''private'') then MSG_PRIVATE
      else if str_includes lowerError (js ''geo'') \<or> str_includes lowerError (js ''blocked'')
        then MSG_REGION
      else if str_includes lowerError (js ''unavailable'') \<or> str_includes lowerError (js ''deleted'')
        then MSG_GONE
      else if str_includes lowerError (js ''unsupported'') then MSG_UNSUPPORTED
      else if str_includes lowerError (js ''sign in'') \<or> str_includes lowerError (js ''login'')
        then MSG_AUTH
      else MSG_GENERIC)"

text \<open>
  The classifier as the specification words it. The rules are tried in the fixed order
  and the first whose keyword is found decides; \<open>classifier\<close> is that rule list over any
  test \<open>found\<close> for a keyword. A keyword (written in lower case) occurs in a text, ignoring
  case, when some substring of the text has the keyword's length and at every position
  either the keyword's unit or, for a letter \<open>a\<close>..\<open>z\<close>, its capital 32 below.
\<close>

definition classifier :: "(string \<Rightarrow> bool) \<Rightarrow> jsstring" where
  "classifier found =
     (if found ''private'' then MSG_PRIVATE
      else if found ''geo'' \<or> found ''blocked'' then MSG_REGION
      else if found ''unavailable'' \<or> found ''deleted'' then MSG_GONE
      else if found ''unsupported'' then MSG_UNSUPPORTED
      else if found ''sign in'' \<or> found ''login'' then MSG_AUTH
      else MSG_GENERIC)"

definition ruleKeywords :: "string list" where
  "ruleKeywords =
     [''private'', ''geo'', ''blocked'', ''unavailable'', ''deleted'', ''unsupported'',
      ''sign in'', ''login'']"

definition sameLetter :: "nat \<Rightarrow> nat \<Rightarrow> bool" where
  "sameLetter c k \<longleftrightarrow> c = k \<or> (97 \<le> k \<and> k \<le> 122 \<and> c + 32 = k)"

definition occursIgnoringCase :: "string \<Rightarrow> jsstring \<Rightarrow> bool" where
  "occursIgnoringCase w text \<longleftrightarrow>
     (\<exists>a m b. text = a @ m @ b \<and> list_all2 sameLetter m (js w))"

section \<open>Access gate (\<open>AccessControl\<close>)\<close>

text \<open>
  \<open>String.prototype.split\<close> with a one-unit separator: the tokens between the
  separators, an empty string giving one empty token.
\<close>

fun split :: "nat \<Rightarrow> jsstring \<Rightarrow> jsstring list" where
  "split sep [] = [[]]"
| "split sep (c # s) =
     (if c = sep then [] # split sep s
      else (case split sep s of [] \<Rightarrow> [[c]] | t # ts \<Rightarrow> (c # t) # ts))"

text \<open>
  White space and line terminators of ECMAScript, as \<open>trim\<close> and \<open>parseInt\<close> strip them:
  TAB, LF, VT, FF, CR, SP, NBSP, U+1680, U+2000..U+200A, U+2028, U+2029, U+202F, U+205F,
  U+3000 and U+FEFF.
\<close>

definition isWhiteSpace :: "nat \<Rightarrow> bool" where
  "isWhiteSpace c \<longleftrightarrow>
     (9 \<le> c \<and> c \<le> 13) \<or> c = 32 \<or> c = 160 \<or> c = 5760 \<or> (8192 \<le> c \<and> c \<le> 8202) \<or>
     c = 8232 \<or> c = 8233 \<or> c = 8239 \<or> c = 8287 \<or> c = 12288 \<or> c = 65279"

definition trim :: "jsstring \<Rightarrow> jsstring" where
  "trim s = rev (dropWhile isWhiteSpace (rev (dropWhile isWhiteSpace s)))"

definition isDigit :: "nat \<Rightarrow> bool" where
  "isDigit c \<longleftrightarrow> 48 \<le> c \<and> c \<le> 57"

definition decimalValue :: "jsstring \<Rightarrow> nat" where
  "decimalValue ds = foldl (\<lambda>a d. 10 * a + (d - 48)) 0 ds"

text \<open>
  The JavaScript numbers that occur here: NaN, the two infinities, and the numbers with
  an integer value (\<open>Num n\<close> is the double whose value is \<open>n\<close>; the two zeros are one
  value, as they are for \<open>Set\<close> and for every comparison made). \<open>parseInt\<close> only
  produces \<open>Num n\<close> for an \<open>n\<close> that a double holds; a Telegram identifier is an integer
  of at most 52 significant bits.
\<close>

datatype number = NaN | Num int | PosInfinity | NegInfinity

text \<open>The number of binary digits of a natural number.\<close>

fun bits :: "nat \<Rightarrow> nat" where
  "bits n = (if n = 0 then 0 else Suc (bits (n div 2)))"

declare bits.simps [simp del]

text \<open>
  The Number value of a non-negative integer: the double nearest to it, the one with the
  even significand on a tie, and infinity (\<open>None\<close>) from \<open>2^1024\<close> on. A double has 53
  significant binary digits, so an integer with \<open>53 + e\<close> digits is rounded to a multiple
  of \<open>2^e\<close>.
\<close>

definition roundToDouble :: "nat \<Rightarrow> nat option" where
  "roundToDouble n =
     (if n < 2 ^ 53 then Some n
      else
        (let e = bits n - 53;
             q = n div 2 ^ e;
             r = n mod 2 ^ e;
             half = 2 ^ (e - 1);
             m = (if half < r \<or> (r = half \<and> odd q) then q + 1 else q) * 2 ^ e
         in if m < 2 ^ 1024 then Some m else None))"

definition toNumber :: "int \<Rightarrow> number" where
  "toNumber n =
     (case roundToDouble (nat \<bar>n\<bar>) of
        Some m \<Rightarrow> Num (if n < 0 then - int m else int m)
      | None \<Rightarrow> if n < 0 then NegInfinity else PosInfinity)"

text \<open>
  \<open>parseInt(string, 10)\<close> after ECMAScript: leading white space is skipped, one sign is
  read, then the longest run of decimal digits; what follows the digits is ignored, and
  no digit at all gives NaN. The result is the Number value of the signed integer the
  digits denote; node converts the digit run with a correctly rounding conversion, so
  the result is that integer up to \<open>2^53\<close> and the nearest double beyond.
\<close>

definition parseInt :: "jsstring \<Rightarrow> number" where
  "parseInt string =
     (let S = dropWhile isWhiteSpace string;
          sign = (if S \<noteq> [] \<and> hd S = 45 then - 1 else 1);
          S' = (if S \<noteq> [] \<and> (hd S = 43 \<or> hd S = 45) then tl S else S);
          Z = takeWhile isDigit S'
      in if Z = [] then NaN else toNumber (sign * int (decimalValue Z)))"

text \<open>
  The constructor: split at commas, trim and parse every token, drop the NaNs, and keep
  the numbers in a \<open>Set\<close>; \<open>isAllowed\<close> is \<open>Set.has\<close>.
\<close>

definition AccessControl :: "jsstring \<Rightarrow> number set" where
  "AccessControl allowedUserIdsEnv =
     set (filter (\<lambda>id. id \<noteq> NaN)
            (map (\<lambda>id. parseInt (trim id)) (split 44 allowedUserIdsEnv)))"

definition isAllowed :: "number set \<Rightarrow> number \<Rightarrow> bool" where
  "isAllowed allowedUserIds userId \<longleftrightarrow> userId \<in> allowedUserIds"

text \<open>
  The words of the specification. A token is an integer numeral for \<open>n\<close> when it is an
  optional sign and then decimal digits only; it merely begins with one when other
  characters may follow the digits.
\<close>

definition signOf :: "jsstring \<Rightarrow> int" where
  "signOf sg = (if sg = [45] then - 1 else 1)"

definition beginsWithInteger :: "jsstring \<Rightarrow> int \<Rightarrow> bool" where
  "beginsWithInteger t n \<longleftrightarrow>
     (\<exists>sg ds rest. t = sg @ ds @ rest \<and> (sg = [] \<or> sg = [43] \<or> sg = [45]) \<and>
        ds \<noteq> [] \<and> list_all isDigit ds \<and> (rest = [] \<or> \<not> isDigit (hd rest)) \<and>
        n = signOf sg * int (decimalValue ds))"

definition isIntegerNumeral :: "jsstring \<Rightarrow> int \<Rightarrow> bool" where
  "isIntegerNumeral t n \<longleftrightarrow>
     (\<exists>sg ds. t = sg @ ds \<and> (sg = [] \<or> sg = [43] \<or> sg = [45]) \<and>
        ds \<noteq> [] \<and> list_all isDigit ds \<and> n = signOf sg * int (decimalValue ds))"


section \<open>Asynchronous results, paths and the temp workspace (\<open>utils/temp.ts\<close>)\<close>

text \<open>
  What awaiting an \<open>async\<close> function gives: the value it resolves with, the message
  of the \<open>Error\<close> it rejects with, or nothing at all when its promise never settles.
\<close>

datatype 'a outcome = Returned 'a | Thrown jsstring | Pending

type_synonym path = jsstring

text \<open>
  \<open>path.join\<close> of a directory and a name that need no normalising, and the directory and
  file part of such a path.
\<close>

definition join :: "path \<Rightarrow> jsstring \<Rightarrow> path" where
  "join dir name = dir @ [47] @ name"

definition dirname :: "path \<Rightarrow> path" where
  "dirname p = rev (tl (dropWhile (\<lambda>c. c \<noteq> 47) (rev p)))"

definition filename :: "path \<Rightarrow> jsstring" where
  "filename p = rev (takeWhile (\<lambda>c. c \<noteq> 47) (rev p))"

text \<open>
  \<open>path.extname\<close> and \<open>path.basename(name, ext)\<close> of node, for a name without a slash:
  the extension starts at the last dot, unless that dot is the first character or the
  name is \<open>..\<close>; \<open>basename\<close> cuts a non-empty extension that is a proper suffix.
\<close>

definition extname :: "jsstring \<Rightarrow> jsstring" where
  "extname name =
     (let stem = dropWhile (\<lambda>c. c \<noteq> 46) (rev name) in
      if stem = [] \<or> tl stem = [] \<or> name = [46, 46] then []
      else drop (length stem - 1) name)"

definition basename :: "jsstring \<Rightarrow> jsstring \<Rightarrow> jsstring" where
  "basename name ext =
     (if ext \<noteq> [] \<and> length ext \<le> length name then
        (if ext = name then []
         else if endsWith name ext then take (length name - length ext) name
         else name)
      else name)"

text \<open>
  The filesystem below the temp base: each existing directory with its entries (name and
  byte size) in listing order. \<open>ensureDir\<close>, \<open>readdir\<close>, \<open>stat\<close> and \<open>remove\<close> may throw
  (the environment says which call does); a \<open>remove\<close> that does not throw deletes a
  directory with all it holds, or a single file, and one that throws is taken to have
  deleted nothing.
\<close>

type_synonym filesystem = "path \<rightharpoonup> (jsstring \<times> nat) list"

datatype fs_call = EnsureDir path | Readdir path | Stat path | Remove path

definition ENOENT :: jsstring where
  "ENOENT = js ''ENOENT: no such file or directory''"

definition fs_remove :: "path \<Rightarrow> filesystem \<Rightarrow> filesystem" where
  "fs_remove p f =
     (\<lambda>d. if d = p \<or> startsWith d (p @ [47]) then None
          else (case f d of None \<Rightarrow> None
                | Some entries \<Rightarrow> Some (filter (\<lambda>e. join d (fst e) \<noteq> p) entries)))"

section \<open>Child processes and Telegram calls\<close>

text \<open>
  How a spawned \<open>yt-dlp\<close> ends: it closes after some milliseconds with an exit code
  (\<open>None\<close> when a signal ended it), it cannot be started (the \<open>error\<close> event), or it
  never exits by itself. A process is given by the chunks it prints on stderr (stdout is
  gathered by the code and never read), the files it leaves in its output directory, and
  its ending.
\<close>

datatype ending = Closes nat "int option" | SpawnError nat jsstring | NeverExits

record process =
  stderr :: "jsstring list"
  written :: "(jsstring \<times> nat) list"
  ending :: ending

text \<open>The texts the bot sends, and the calls it makes on the chat.\<close>

datatype message =
    AccessDenied | WaitForCurrent | WaitAFewSeconds | SendValidUrl | Downloading
  | ErrorText "jsstring option" | DownloadComplete | FailedToProcess jsstring
  | FailedToSend "jsstring option"

datatype tg_call =
    Reply message | EditStatus message | ReplyWithVideo path jsstring
  | ReplyWithDocument path jsstring | DeleteStatus

text \<open>
  The environment of a run: \<open>String.prototype.toLowerCase\<close> of the platform, the temp
  base directory (\<open>TEMP_BASE_DIR\<close>), the identifiers \<open>uuidv4\<close> hands out, the filesystem
  calls that throw, the behaviour of the k-th child process given its argument vector,
  and the k-th Telegram call that throws.
\<close>

record env =
  toLowerCase :: "jsstring \<Rightarrow> jsstring"
  TEMP_BASE_DIR :: path
  uuidv4 :: "nat \<Rightarrow> jsstring"
  fsFault :: "fs_call \<Rightarrow> jsstring option"
  ytDlp :: "nat \<Rightarrow> jsstring list \<Rightarrow> process"
  telegramFault :: "nat \<Rightarrow> tg_call \<Rightarrow> jsstring option"

record SessionData =
  isProcessing :: bool
  lastRequestTime :: int

text \<open>
  The mutable state: the filesystem, the number of identifiers issued, the argument
  vectors of the processes spawned so far, the processes sent SIGTERM, the Telegram
  calls made, and the bot's \<open>userSessions\<close> map.
\<close>

record world =
  fs :: filesystem
  issued :: nat
  spawned :: "jsstring list list"
  terminated :: "nat list"
  sent :: "tg_call list"
  userSessions :: "int \<rightharpoonup> SessionData"

definition createTempDir :: "env \<Rightarrow> jsstring \<Rightarrow> world \<Rightarrow> path outcome \<times> world" where
  "createTempDir e requestId w =
     (let tempDir = join (TEMP_BASE_DIR e) requestId in
      case fsFault e (EnsureDir tempDir) of
        Some msg \<Rightarrow> (Thrown msg, w)
      | None \<Rightarrow>
          (Returned tempDir,
           w\<lparr>fs := (case fs w tempDir of None \<Rightarrow> (fs w)(tempDir \<mapsto> []) | Some _ \<Rightarrow> fs w)\<rparr>))"

text \<open>
  \<open>cleanupTempDir\<close>: the removal is tried; when it throws, the error is logged and
  swallowed, and what was to be removed stays.
\<close>

definition cleanupTempDir :: "env \<Rightarrow> path \<Rightarrow> world \<Rightarrow> world" where
  "cleanupTempDir e tempDir w =
     (case fsFault e (Remove tempDir) of
        None \<Rightarrow> w\<lparr>fs := fs_remove tempDir (fs w)\<rparr>
      | Some _ \<Rightarrow> w)"

definition readdir :: "env \<Rightarrow> filesystem \<Rightarrow> path \<Rightarrow> jsstring + jsstring list" where
  "readdir e f dir =
     (case fsFault e (Readdir dir) of
        Some msg \<Rightarrow> Inl msg
      | None \<Rightarrow> (case f dir of None \<Rightarrow> Inl ENOENT | Some entries \<Rightarrow> Inr (map fst entries)))"

definition stat :: "env \<Rightarrow> filesystem \<Rightarrow> path \<Rightarrow> jsstring + nat" where
  "stat e f p =
     (case fsFault e (Stat p) of
        Some msg \<Rightarrow> Inl msg
      | None \<Rightarrow>
          (case f (dirname p) of
             None \<Rightarrow> Inl ENOENT
           | Some entries \<Rightarrow>
               (case map_of entries (filename p) of None \<Rightarrow> Inl ENOENT | Some bytes \<Rightarrow> Inr bytes)))"


section \<open>Download orchestrator (\<open>services/downloader.ts\<close>)\<close>

record DownloadResult =
  success :: bool
  filePath :: "path option"
  title :: "jsstring option"
  error :: "jsstring option"
  fileSize :: "nat option"

text \<open>
  The configuration holds two JavaScript numbers read by \<open>parseInt\<close>.
  \<open>main\<close> takes them from the process environment with \<open>120\<close> and \<open>49\<close> as defaults
  (\<open>x || d\<close> replaces an unset or empty variable).
\<close>

record DownloaderConfig =
  downloadTimeout :: number
  maxFileSizeMB :: number

definition orDefault :: "jsstring option \<Rightarrow> jsstring \<Rightarrow> jsstring" where
  "orDefault v d = (case v of None \<Rightarrow> d | Some x \<Rightarrow> if x = [] then d else x)"

definition loadConfig :: "jsstring option \<Rightarrow> jsstring option \<Rightarrow> DownloaderConfig" where
  "loadConfig DOWNLOAD_TIMEOUT MAX_FILE_SIZE_MB =
     \<lparr>downloadTimeout = parseInt (orDefault DOWNLOAD_TIMEOUT (js ''120'')),
      maxFileSizeMB = parseInt (orDefault MAX_FILE_SIZE_MB (js ''49''))\<rparr>"

definition failure :: "jsstring \<Rightarrow> DownloadResult" where
  "failure reason =
     \<lparr>success = False, filePath = None, title = None, error = Some reason, fileSize = None\<rparr>"

text \<open>The argument vectors of the first attempt and of the lower-quality attempt.\<close>

definition runYtDlp_args :: "jsstring \<Rightarrow> path \<Rightarrow> jsstring list" where
  "runYtDlp_args url tempDir =
     (let outputPath = join tempDir (js ''%(title)s.%(ext)s'');
          isInstagram = str_includes url (js ''instagram.com'')
      in [js ''--no-playlist'', js ''--no-progress''] @
         (if isInstagram then
            [js ''-f'', js ''bestvideo[ext=mp4]+bestaudio[ext=m4a]/best[ext=mp4]/best'',
             js ''--merge-output-format'', js ''mp4'',
             js ''--postprocessor-args'',
             js ''ffmpeg:-c:v libx264 -c:a aac -pix_fmt yuv420p -movflags +faststart'']
          else
            [js ''-f'', js ''bestvideo+bestaudio/best'',
             js ''--merge-output-format'', js ''mp4'',
             js ''--remux-video'', js ''mp4'']) @
         [js ''-o'', outputPath, url])"

definition runYtDlpLowerQuality_args :: "jsstring \<Rightarrow> path \<Rightarrow> jsstring list" where
  "runYtDlpLowerQuality_args url tempDir =
     (let outputPath = join tempDir (js ''%(title)s.%(ext)s'');
          isInstagram = str_includes url (js ''instagram.com'')
      in [js ''--no-playlist'', js ''--no-progress''] @
         (if isInstagram then
            [js ''-f'',
             js ''bestvideo[height<=480][ext=mp4]+bestaudio[ext=m4a]/best[height<=480][ext=mp4]/best'',
             js ''--merge-output-format'', js ''mp4'',
             js ''--postprocessor-args'',
             js ''ffmpeg:-c:v libx264 -c:a aac -pix_fmt yuv420p -movflags +faststart'']
          else
            [js ''-f'', js ''bestvideo[height<=480]+bestaudio/best[height<=480]/best'',
             js ''--merge-output-format'', js ''mp4'',
             js ''--remux-video'', js ''mp4'']) @
         [js ''-o'', outputPath, url])"

text \<open>
  The promise that \<open>runYtDlp\<close> and \<open>runYtDlpLowerQuality\<close> build (the two bodies differ
  in the argument vector only). Its state: whether the timeout is still armed, how often
  the timeout callback ran, how many SIGTERMs it sent, the text gathered from stderr, and
  the value the promise settled with. \<open>resolve\<close> settles a promise once; later calls
  change nothing.
\<close>

record attempt =
  timerArmed :: bool
  timerRuns :: nat
  killsSent :: nat
  errorOutput :: jsstring
  settled :: "DownloadResult option"

datatype event = StderrData jsstring | TimerDue | Close "int option" | Error jsstring

definition resolve :: "DownloadResult \<Rightarrow> attempt \<Rightarrow> attempt" where
  "resolve r a = (case settled a of None \<Rightarrow> a\<lparr>settled := Some r\<rparr> | Some _ \<Rightarrow> a)"

definition isVideoFile :: "jsstring \<Rightarrow> bool" where
  "isVideoFile f \<longleftrightarrow>
     endsWith f (js ''.mp4'') \<or> endsWith f (js ''.mkv'') \<or> endsWith f (js ''.webm'') \<or>
     endsWith f (js ''.mov'')"

text \<open>
  The handlers. The runtime runs the timeout callback when the deadline passes and the
  timeout has not been cleared; \<open>close\<close> and \<open>error\<close> clear it first.
\<close>

definition onEvent :: "env \<Rightarrow> path \<Rightarrow> filesystem \<Rightarrow> attempt \<Rightarrow> event \<Rightarrow> attempt" where
  "onEvent e tempDir f a ev =
     (case ev of
        StderrData d \<Rightarrow> a\<lparr>errorOutput := errorOutput a @ d\<rparr>
      | TimerDue \<Rightarrow>
          if timerArmed a then
            resolve (failure (js ''Download timeout''))
              (a\<lparr>timerArmed := False, timerRuns := Suc (timerRuns a),
                 killsSent := Suc (killsSent a)\<rparr>)
          else a
      | Close code \<Rightarrow>
          (let a' = a\<lparr>timerArmed := False\<rparr> in
           if code = Some 0 then
             (case readdir e f tempDir of
                Inl _ \<Rightarrow> resolve (failure (js ''Failed to find downloaded file'')) a'
              | Inr files \<Rightarrow>
                  (case List.find isVideoFile files of
                     Some videoFile \<Rightarrow>
                       (let title = basename videoFile (extname videoFile) in
                        resolve
                          \<lparr>success = True, filePath = Some (join tempDir videoFile),
                           title = Some (if title = [] then js ''Unknown'' else title),
                           error = None, fileSize = None\<rparr> a')
                   | None \<Rightarrow> resolve (failure (js ''No video file found after download'')) a'))
           else resolve (failure (parseYtDlpError (toLowerCase e) (errorOutput a))) a')
      | Error msg \<Rightarrow>
          resolve (failure (js ''yt-dlp failed to start: '' @ msg)) (a\<lparr>timerArmed := False\<rparr>))"

text \<open>
  The delay of \<open>setTimeout(callback, downloadTimeout * 1000)\<close> in milliseconds: node
  takes a delay between 1 and \<open>2^31 - 1\<close> and uses 1 for anything else, NaN and the
  infinities included. (A product in that range is exact.)
\<close>

definition timerDelay :: "number \<Rightarrow> nat" where
  "timerDelay seconds =
     (case seconds of
        Num s \<Rightarrow> if 1 \<le> s * 1000 \<and> s * 1000 \<le> 2147483647 then nat (s * 1000) else 1
      | _ \<Rightarrow> 1)"

text \<open>
  The events of one attempt in the order the event loop delivers them: the stderr
  chunks, then the end of the process and the deadline, whichever is earlier (the
  deadline on a tie). A process still running at the deadline gets SIGTERM and closes
  with no exit code.
\<close>

definition schedule :: "nat \<Rightarrow> process \<Rightarrow> event list" where
  "schedule delay p =
     map StderrData (stderr p) @
     (case ending p of
        Closes t code \<Rightarrow> if t < delay then [Close code, TimerDue] else [TimerDue, Close None]
      | SpawnError t msg \<Rightarrow> if t < delay then [Error msg, TimerDue] else [TimerDue, Error msg]
      | NeverExits \<Rightarrow> [TimerDue, Close None])"

definition newAttempt :: attempt where
  "newAttempt =
     \<lparr>timerArmed = True, timerRuns = 0, killsSent = 0, errorOutput = [], settled = None\<rparr>"

definition runAttempt :: "env \<Rightarrow> path \<Rightarrow> filesystem \<Rightarrow> nat \<Rightarrow> process \<Rightarrow> attempt" where
  "runAttempt e tempDir f delay p = foldl (onEvent e tempDir f) newAttempt (schedule delay p)"

text \<open>
  Spawning: the next process of the environment starts with the given arguments, leaves
  its files in the workspace (none when it cannot be started), and the promise runs to
  its end.
\<close>

definition spawnAndAwait ::
  "env \<Rightarrow> DownloaderConfig \<Rightarrow> jsstring list \<Rightarrow> path \<Rightarrow> world \<Rightarrow> DownloadResult outcome \<times> world"
where
  "spawnAndAwait e config args tempDir w =
     (let k = length (spawned w);
          p = ytDlp e k args;
          files = (case ending p of SpawnError _ _ \<Rightarrow> [] | _ \<Rightarrow> written p);
          f = (fs w)(tempDir \<mapsto> (case fs w tempDir of None \<Rightarrow> [] | Some es \<Rightarrow> es) @ files);
          a = runAttempt e tempDir f (timerDelay (downloadTimeout config)) p;
          w' = w\<lparr>fs := f, spawned := spawned w @ [args],
                 terminated := terminated w @ (if 0 < killsSent a then [k] else [])\<rparr>
      in (case settled a of None \<Rightarrow> Pending | Some r \<Rightarrow> Returned r, w'))"

definition runYtDlp ::
  "env \<Rightarrow> DownloaderConfig \<Rightarrow> jsstring \<Rightarrow> path \<Rightarrow> world \<Rightarrow> DownloadResult outcome \<times> world"
where
  "runYtDlp e config url tempDir w =
     spawnAndAwait e config (runYtDlp_args url tempDir) tempDir w"

definition runYtDlpLowerQuality ::
  "env \<Rightarrow> DownloaderConfig \<Rightarrow> jsstring \<Rightarrow> path \<Rightarrow> world \<Rightarrow> DownloadResult outcome \<times> world"
where
  "runYtDlpLowerQuality e config url tempDir w =
     spawnAndAwait e config (runYtDlpLowerQuality_args url tempDir) tempDir w"

text \<open>
  \<open>fs.stat(result.filePath!)\<close>: a missing path makes \<open>stat\<close> throw a TypeError.
\<close>

definition statResult :: "env \<Rightarrow> world \<Rightarrow> DownloadResult \<Rightarrow> jsstring + (path \<times> nat)" where
  "statResult e w result =
     (case filePath result of
        None \<Rightarrow> Inl (js ''The path argument must be of type string'')
      | Some p \<Rightarrow> (case stat e (fs w) p of Inl msg \<Rightarrow> Inl msg | Inr bytes \<Rightarrow> Inr (p, bytes)))"

definition downloadLowerQuality ::
  "env \<Rightarrow> DownloaderConfig \<Rightarrow> jsstring \<Rightarrow> jsstring \<Rightarrow> world \<Rightarrow> DownloadResult outcome \<times> world"
where
  "downloadLowerQuality e config url requestId w =
     (case createTempDir e requestId w of
        (Thrown msg, w1) \<Rightarrow> (Thrown msg, w1)
      | (Pending, w1) \<Rightarrow> (Pending, w1)
      | (Returned tempDir, w1) \<Rightarrow>
          (case runYtDlpLowerQuality e config url tempDir w1 of
             (Pending, w2) \<Rightarrow> (Pending, w2)
           | (Thrown msg, w2) \<Rightarrow> (Returned (failure msg), cleanupTempDir e tempDir w2)
           | (Returned result, w2) \<Rightarrow>
               if \<not> success result then (Returned result, cleanupTempDir e tempDir w2)
               else
                 (case statResult e w2 result of
                    Inl msg \<Rightarrow> (Returned (failure msg), cleanupTempDir e tempDir w2)
                  | Inr (p, bytes) \<Rightarrow>
                      (Returned
                         \<lparr>success = True, filePath = Some p, title = title result,
                          error = None, fileSize = Some bytes\<rparr>, w2))))"

text \<open>
  \<open>stats.size / (1024 * 1024) > maxFileSizeMB\<close>: the division by a power of two is exact,
  so the test is a comparison of integers; against NaN it is false, and every size is
  below infinity and above minus infinity.
\<close>

definition tooLarge :: "DownloaderConfig \<Rightarrow> nat \<Rightarrow> bool" where
  "tooLarge config bytes =
     (case maxFileSizeMB config of
        Num mb \<Rightarrow> mb * 1048576 < int bytes
      | NegInfinity \<Rightarrow> True
      | _ \<Rightarrow> False)"

definition download ::
  "env \<Rightarrow> DownloaderConfig \<Rightarrow> jsstring \<Rightarrow> world \<Rightarrow> DownloadResult outcome \<times> world"
where
  "download e config url w =
     (let requestId = uuidv4 e (issued w) in
      case createTempDir e requestId (w\<lparr>issued := Suc (issued w)\<rparr>) of
        (Thrown msg, w1) \<Rightarrow> (Thrown msg, w1)
      | (Pending, w1) \<Rightarrow> (Pending, w1)
      | (Returned tempDir, w1) \<Rightarrow>
          (case runYtDlp e config url tempDir w1 of
             (Pending, w2) \<Rightarrow> (Pending, w2)
           | (Thrown msg, w2) \<Rightarrow> (Returned (failure msg), cleanupTempDir e tempDir w2)
           | (Returned result, w2) \<Rightarrow>
               if \<not> success result then (Returned result, cleanupTempDir e tempDir w2)
               else
                 (case statResult e w2 result of
                    Inl msg \<Rightarrow> (Returned (failure msg), cleanupTempDir e tempDir w2)
                  | Inr (p, bytes) \<Rightarrow>
                      if tooLarge config bytes then
                        (case downloadLowerQuality e config url requestId
                                (cleanupTempDir e tempDir w2) of
                           (Thrown msg, w3) \<Rightarrow>
                             (Returned (failure msg), cleanupTempDir e tempDir w3)
                         | other \<Rightarrow> other)
                      else
                        (Returned
                           \<lparr>success = True, filePath = Some p, title = title result,
                            error = None, fileSize = Some bytes\<rparr>, w2))))"


section \<open>URL extractor (\<open>utils/url.ts\<close>)\<close>

text \<open>
  The regular expressions the repository needs: a literal code unit (compared without
  regard to case, for the \<open>i\<close> flag), an optional literal group \<open>(?:...)?\<close>, a greedy
  bounded repetition of a character class, and the word boundary \<open>\b\<close>. Matching is
  the backtracking search of ECMAScript: a greedy quantifier takes as much as it can and
  gives back one unit at a time while the rest of the pattern fails. \<open>matchHere r prev s\<close>
  matches the pattern \<open>r\<close> at the front of \<open>s\<close>, the unit before \<open>s\<close> being \<open>prev\<close>, and
  returns what is left of \<open>s\<close> behind the match.
\<close>

datatype node = Lit nat | Opt "nat list" | Rep "nat \<Rightarrow> bool" nat "nat option" | WordBoundary

definition isWordChar :: "nat \<Rightarrow> bool" where
  "isWordChar c \<longleftrightarrow>
     (97 \<le> c \<and> c \<le> 122) \<or> (65 \<le> c \<and> c \<le> 90) \<or> (48 \<le> c \<and> c \<le> 57) \<or> c = 95"

fun weight :: "node \<Rightarrow> nat" where
  "weight (Opt g) = Suc (length g)"
| "weight n = 1"

function matchHere :: "node list \<Rightarrow> nat option \<Rightarrow> jsstring \<Rightarrow> jsstring option"
  and giveBack :: "node list \<Rightarrow> nat \<Rightarrow> nat option \<Rightarrow> jsstring \<Rightarrow> nat \<Rightarrow> jsstring option"
where
  "matchHere [] prev s = Some s"
| "matchHere (Lit c # r) prev s =
     (case s of
        [] \<Rightarrow> None
      | x # xs \<Rightarrow> if lowerUnit x = lowerUnit c then matchHere r (Some x) xs else None)"
| "matchHere (Opt g # r) prev s =
     (case matchHere (map Lit g @ r) prev s of
        Some rest \<Rightarrow> Some rest
      | None \<Rightarrow> matchHere r prev s)"
| "matchHere (Rep cls lo hi # r) prev s =
     giveBack r lo prev s
       (length (takeWhile cls (case hi of None \<Rightarrow> s | Some h \<Rightarrow> take h s)))"
| "matchHere (WordBoundary # r) prev s =
     (if (case prev of None \<Rightarrow> False | Some c \<Rightarrow> isWordChar c) \<noteq>
         (case s of [] \<Rightarrow> False | x # xs \<Rightarrow> isWordChar x)
      then matchHere r prev s else None)"
| "giveBack r lo prev s k =
     (if k < lo then None
      else (case matchHere r (if k = 0 then prev else Some (s ! (k - 1))) (drop k s) of
              Some rest \<Rightarrow> Some rest
            | None \<Rightarrow> if k = 0 then None else giveBack r lo prev s (k - 1)))"
  by pat_completeness auto
termination
  by (relation "inv_image (less_than <*lex*> less_than)
        (\<lambda>x. case x of Inl (r, prev, s) \<Rightarrow> (sum_list (map weight r), 0)
                      | Inr (r, lo, prev, s, k) \<Rightarrow> (sum_list (map weight r), Suc k))")
     (auto simp: comp_def sum_list_triv)

declare giveBack.simps [simp del]

text \<open>
  \<open>URL_REGEX\<close>:
  \<^verbatim>\<open>/(https?:\/\/(?:www\.)?[-a-zA-Z0-9@:%._+~#=]{1,256}\.[a-zA-Z0-9()]{1,6}\b(?:[-a-zA-Z0-9()@:%_+.~#?&/=]*))/gi\<close>
\<close>

definition isAlnum :: "nat \<Rightarrow> bool" where
  "isAlnum c \<longleftrightarrow> (97 \<le> c \<and> c \<le> 122) \<or> (65 \<le> c \<and> c \<le> 90) \<or> (48 \<le> c \<and> c \<le> 57)"

definition hostClass :: "nat \<Rightarrow> bool" where
  "hostClass c \<longleftrightarrow> isAlnum c \<or> c \<in> set (js ''-@:%._+~#='')"

definition tldClass :: "nat \<Rightarrow> bool" where
  "tldClass c \<longleftrightarrow> isAlnum c \<or> c \<in> set (js ''()'')"

definition tailClass :: "nat \<Rightarrow> bool" where
  "tailClass c \<longleftrightarrow> isAlnum c \<or> c \<in> set (js ''-()@:%_+.~#?&/='')"

definition URL_REGEX :: "node list" where
  "URL_REGEX =
     map Lit (js ''http'') @ [Opt (js ''s'')] @ map Lit (js ''://'') @
     [Opt (js ''www.''), Rep hostClass 1 (Some 256), Lit 46, Rep tldClass 1 (Some 6),
      WordBoundary, Rep tailClass 0 None]"

text \<open>
  \<open>text.match(regex)\<close> with the \<open>g\<close> flag: the matches found from left to right, each
  search starting where the last match ended (one unit further after an empty match).
\<close>

function matchAll :: "node list \<Rightarrow> nat option \<Rightarrow> jsstring \<Rightarrow> jsstring list" where
  "matchAll r prev s =
     (case matchHere r prev s of
        None \<Rightarrow> (case s of [] \<Rightarrow> [] | x # xs \<Rightarrow> matchAll r (Some x) xs)
      | Some rest \<Rightarrow>
          (let n = length s - length rest in
           if n = 0 then [] # (case s of [] \<Rightarrow> [] | x # xs \<Rightarrow> matchAll r (Some x) xs)
           else take n s # matchAll r (Some (s ! (n - 1))) (drop n s)))"
  by pat_completeness auto
termination
  by (relation "measure (\<lambda>(r, prev, s). length s)") auto

declare matchAll.simps [simp del]

text \<open>\<open>new Set(matches)\<close> spread into an array: the values in the order they were first added.\<close>

definition newSet :: "'a list \<Rightarrow> 'a list" where
  "newSet xs = fold (\<lambda>x seen. if x \<in> set seen then seen else seen @ [x]) xs []"

definition extractUrls :: "jsstring \<Rightarrow> jsstring list" where
  "extractUrls text =
     (let matches = matchAll URL_REGEX None text in
      if matches = [] then [] else newSet matches)"

text \<open>
  The specification's words: the strings of a sequence in the order of their first
  occurrence, every later repetition dropped.
\<close>

definition firstOccurrences :: "'a list \<Rightarrow> 'a list" where
  "firstOccurrences xs =
     map (\<lambda>i. xs ! i) (filter (\<lambda>i. xs ! i \<notin> set (take i xs)) [0..<length xs])"


section \<open>The bot (\<open>bot/bot.ts\<close>)\<close>

text \<open>\<open>s.replace(/c/g, r)\<close> for a single code unit \<open>c\<close>.\<close>

definition replaceAll :: "nat \<Rightarrow> jsstring \<Rightarrow> jsstring \<Rightarrow> jsstring" where
  "replaceAll c r s = concat (map (\<lambda>x. if x = c then r else [x]) s)"

text \<open>
  \<open>buildCaption\<close>. The link emoji U+1F517 is the surrogate pair D83D DD17, two code
  units; 10 is the line feed and 34 the double quote.
\<close>

definition buildCaption :: "jsstring \<Rightarrow> jsstring option \<Rightarrow> jsstring" where
  "buildCaption url videoTitle =
     (let caption0 =
            (case videoTitle of
               None \<Rightarrow> []
             | Some t \<Rightarrow>
                 if t \<noteq> [] \<and> t \<noteq> js ''Unknown'' then
                   (let escapedTitle =
                          replaceAll 62 (js ''&gt;'')
                            (replaceAll 60 (js ''&lt;'') (replaceAll 38 (js ''&amp;'') t))
                    in js ''<b>'' @ escapedTitle @ js ''</b>'' @ [10])
                 else []);
          caption = caption0 @ [10, 55357, 56599] @ js '' <a href='' @ [34] @ url @ [34] @
                    js ''>Source</a>''
      in if 1024 < length caption then take 1021 caption @ js ''...'' else caption)"

text \<open>
  The caption in the specification's words: a title line with the title escaped
  character by character, then the source-link line.
\<close>

definition escapeHtml :: "jsstring \<Rightarrow> jsstring" where
  "escapeHtml t =
     concat (map (\<lambda>c. if c = 38 then js ''&amp;'' else if c = 60 then js ''&lt;''
                        else if c = 62 then js ''&gt;'' else [c]) t)"

definition titleLine :: "jsstring option \<Rightarrow> jsstring" where
  "titleLine videoTitle =
     (case videoTitle of
        None \<Rightarrow> []
      | Some t \<Rightarrow> if t = [] \<or> t = js ''Unknown'' then []
                  else js ''<b>'' @ escapeHtml t @ js ''</b>'' @ [10])"

definition sourceLine :: "jsstring \<Rightarrow> jsstring" where
  "sourceLine url = [10, 55357, 56599] @ js '' <a href='' @ [34] @ url @ [34] @ js ''>Source</a>''"

text \<open>A call on the Telegram API: it is recorded, and throws when the environment says so.\<close>

definition telegram :: "env \<Rightarrow> tg_call \<Rightarrow> world \<Rightarrow> unit outcome \<times> world" where
  "telegram e c w =
     (case telegramFault e (length (sent w)) c of
        Some msg \<Rightarrow> Thrown msg
      | None \<Rightarrow> Returned (), w\<lparr>sent := sent w @ [c]\<rparr>)"

text \<open>
  \<open>sendVideo\<close>: nothing without a file path (absent or empty); else the video, on
  failure the document, on failure a text; the \<open>finally\<close> block hands
  \<open>result.filePath\<close> to \<open>cleanupTempDir\<close>.
\<close>

definition sendVideo :: "env \<Rightarrow> DownloadResult \<Rightarrow> jsstring \<Rightarrow> world \<Rightarrow> unit outcome \<times> world" where
  "sendVideo e result url w =
     (case filePath result of
        None \<Rightarrow> (Returned (), w)
      | Some p \<Rightarrow>
          if p = [] then (Returned (), w)
          else
            (let caption = buildCaption url (title result);
                 (r, w') =
                   (case telegram e (ReplyWithVideo p caption) w of
                      (Thrown _, w1) \<Rightarrow>
                        (case telegram e (ReplyWithDocument p caption) w1 of
                           (Thrown _, w2) \<Rightarrow> telegram e (Reply (FailedToSend (title result))) w2
                         | done \<Rightarrow> done)
                    | done \<Rightarrow> done)
             in (r, cleanupTempDir e p w')))"

text \<open>
  \<open>processUrl\<close>. The status reply is outside the \<open>try\<close>; the \<open>catch\<close> edits the status
  message, and that edit may throw in its turn.
\<close>

record update =
  from_id :: "int option"
  chat_id :: "int option"
  message_text :: "jsstring option"

definition processUrl ::
  "env \<Rightarrow> DownloaderConfig \<Rightarrow> update \<Rightarrow> jsstring \<Rightarrow> world \<Rightarrow> unit outcome \<times> world"
where
  "processUrl e config ctx url w =
     (case telegram e (Reply Downloading) w of
        (Thrown msg, w1) \<Rightarrow> (Thrown msg, w1)
      | (Pending, w1) \<Rightarrow> (Pending, w1)
      | (Returned _, w1) \<Rightarrow>
          if chat_id ctx = None then (Returned (), w1)
          else
            (let (r, w') =
                   (case download e config url w1 of
                      (Thrown msg, w2) \<Rightarrow> (Thrown msg, w2)
                    | (Pending, w2) \<Rightarrow> (Pending, w2)
                    | (Returned result, w2) \<Rightarrow>
                        if \<not> success result then
                          telegram e (EditStatus (ErrorText (error result))) w2
                        else
                          (case telegram e (EditStatus DownloadComplete) w2 of
                             (Returned _, w3) \<Rightarrow>
                               (case sendVideo e result url w3 of
                                  (Returned _, w4) \<Rightarrow>
                                    (Returned (), snd (telegram e DeleteStatus w4))
                                | failed \<Rightarrow> failed)
                           | failed \<Rightarrow> failed))
             in case r of
                  Thrown msg \<Rightarrow> telegram e (EditStatus (FailedToProcess msg)) w'
                | _ \<Rightarrow> (r, w')))"

text \<open>The \<open>for\<close> loop over the URLs of one message: it ends at the first exception.\<close>

fun processAll ::
  "env \<Rightarrow> DownloaderConfig \<Rightarrow> update \<Rightarrow> jsstring list \<Rightarrow> world \<Rightarrow> unit outcome \<times> world"
where
  "processAll e config ctx [] w = (Returned (), w)"
| "processAll e config ctx (url # urls) w =
     (case processUrl e config ctx url w of
        (Returned _, w') \<Rightarrow> processAll e config ctx urls w'
      | stopped \<Rightarrow> stopped)"

text \<open>
  The \<open>message\<close> handler. \<open>now\<close> is what \<open>Date.now()\<close> reads while the message is
  checked and accepted, \<open>later\<close> what it reads in the \<open>finally\<close> block; a promise that
  never settles never reaches the \<open>finally\<close> block.
\<close>

definition cooldownMs :: int where
  "cooldownMs = 5000"

definition onMessage ::
  "env \<Rightarrow> DownloaderConfig \<Rightarrow> number set \<Rightarrow> int \<Rightarrow> int \<Rightarrow> update \<Rightarrow> world \<Rightarrow> unit outcome \<times> world"
where
  "onMessage e config accessControl now later ctx w =
     (case (from_id ctx, message_text ctx) of
        (Some userId, Some txt) \<Rightarrow>
          if userId = 0 \<or> txt = [] then (Returned (), w)
          else if \<not> isAllowed accessControl (Num userId) then telegram e (Reply AccessDenied) w
          else
            (let session = userSessions w userId in
             if (case session of None \<Rightarrow> False | Some s \<Rightarrow> isProcessing s) then
               telegram e (Reply WaitForCurrent) w
             else if (case session of None \<Rightarrow> False
                      | Some s \<Rightarrow> now - lastRequestTime s < cooldownMs) then
               telegram e (Reply WaitAFewSeconds) w
             else
               (let urls = extractUrls txt in
                if urls = [] then telegram e (Reply SendValidUrl) w
                else
                  (case processAll e config ctx urls
                          (w\<lparr>userSessions := (userSessions w)
                               (userId \<mapsto> \<lparr>isProcessing = True, lastRequestTime = now\<rparr>)\<rparr>) of
                     (Pending, w') \<Rightarrow> (Pending, w')
                   | (r, w') \<Rightarrow>
                       (r, w'\<lparr>userSessions := (userSessions w')
                               (userId \<mapsto> \<lparr>isProcessing = False, lastRequestTime = later\<rparr>)\<rparr>))))
      | _ \<Rightarrow> (Returned (), w))"


section \<open>Notions of the specification\<close>

text \<open>
  The host of a URL, which the specification speaks of and the code never computes: what
  follows \<open>://\<close> up to the first \<open>/\<close>, \<open>?\<close> or \<open>#\<close>, without user information and port.
\<close>

fun afterScheme :: "jsstring \<Rightarrow> jsstring" where
  "afterScheme (a # b # c # s) =
     (if a = 58 \<and> b = 47 \<and> c = 47 then s else afterScheme (b # c # s))"
| "afterScheme s = s"

definition urlHost :: "jsstring \<Rightarrow> jsstring" where
  "urlHost url =
     (let authority = takeWhile (\<lambda>c. c \<noteq> 47 \<and> c \<noteq> 63 \<and> c \<noteq> 35) (afterScheme url);
          hostport = rev (takeWhile (\<lambda>c. c \<noteq> 64) (rev authority))
      in takeWhile (\<lambda>c. c \<noteq> 58) hostport)"


text \<open>
  A child process has not exited within the timeout when its end comes after the
  deadline or never; it has exited before the deadline when its end comes earlier.
\<close>

definition notExitedBy :: "nat \<Rightarrow> process \<Rightarrow> bool" where
  "notExitedBy delay p \<longleftrightarrow>
     (case ending p of Closes t c \<Rightarrow> delay < t | SpawnError t m \<Rightarrow> delay < t | NeverExits \<Rightarrow> True)"

definition exitedBefore :: "nat \<Rightarrow> process \<Rightarrow> bool" where
  "exitedBefore delay p \<longleftrightarrow>
     (case ending p of Closes t c \<Rightarrow> t < delay | SpawnError t m \<Rightarrow> t < delay | NeverExits \<Rightarrow> False)"


text \<open>
  A user may proceed past the two session checks when no batch of theirs is in progress
  and the cooldown since the last stamped time is over (or nothing was ever stamped);
  accepting stamps the time and sets the in-progress flag.
\<close>

definition mayProceed :: "world \<Rightarrow> int \<Rightarrow> int \<Rightarrow> bool" where
  "mayProceed w userId now \<longleftrightarrow>
     (case userSessions w userId of
        None \<Rightarrow> True
      | Some s \<Rightarrow> \<not> isProcessing s \<and> cooldownMs \<le> now - lastRequestTime s)"

definition accepting :: "int \<Rightarrow> int \<Rightarrow> world \<Rightarrow> world" where
  "accepting userId now w =
     w\<lparr>userSessions := (userSessions w)
          (userId \<mapsto> \<lparr>isProcessing = True, lastRequestTime = now\<rparr>)\<rparr>"


section \<open>Concrete runs\<close>

text \<open>
  Child processes for the examples: one that leaves a 10 MB video and exits with code 0
  after three seconds, one that leaves a thumbnail beside the video, one that leaves a
  60 MB video, one that hangs with a partial file, and one that fails on private content.
\<close>

definition clip :: process where
  "clip = \<lparr>stderr = [], written = [(js ''My Clip.mp4'', 10485760)],
           ending = Closes 3000 (Some 0)\<rparr>"

definition clipWithThumbnail :: process where
  "clipWithThumbnail =
     \<lparr>stderr = [], written = [(js ''My Clip.jpg'', 2000), (js ''My Clip.mp4'', 10485760)],
      ending = Closes 3000 (Some 0)\<rparr>"

definition bigClip :: process where
  "bigClip = \<lparr>stderr = [], written = [(js ''Big.mp4'', 62914560)], ending = Closes 3000 (Some 0)\<rparr>"

definition hung :: process where
  "hung = \<lparr>stderr = [js ''WARNING: slow''], written = [(js ''My Clip.mp4.part'', 100)],
           ending = NeverExits\<rparr>"

definition refused :: process where
  "refused = \<lparr>stderr = [js ''ERROR: This video is Private''], written = [],
              ending = Closes 900 (Some 1)\<rparr>"

text \<open>
  A lower-casing for the examples: the platform's on ASCII, on the KELVIN SIGN (8490, to
  \<open>k\<close>) and on U+0130 (304, to \<open>i\<close> and U+0307), the identity on every other unit.
\<close>

definition lowerSample :: "jsstring \<Rightarrow> jsstring" where
  "lowerSample s =
     concat (map (\<lambda>c. if c = 8490 then [107] else if c = 304 then [105, 775]
                       else [lowerUnit c]) s)"

text \<open>
  An environment with that lower-casing, the temp base \<open>/app/temp\<close>, request identifiers
  \<open>req0\<close>, \<open>req1\<close>, ..., a filesystem that never throws, the given child processes and
  the given Telegram faults (none, or every status reply timing out); a filesystem on
  which removing the first workspace fails; the world at start-up; the default
  configuration; a text message.
\<close>

definition demoEnv :: "(nat \<Rightarrow> process) \<Rightarrow> (nat \<Rightarrow> tg_call \<Rightarrow> jsstring option) \<Rightarrow> env" where
  "demoEnv ps faults =
     \<lparr>toLowerCase = lowerSample,
      TEMP_BASE_DIR = js ''/app/temp'', uuidv4 = (\<lambda>k. js ''req'' @ [48 + k]),
      fsFault = (\<lambda>c. None), ytDlp = (\<lambda>k args. ps k), telegramFault = faults\<rparr>"

definition removeFails :: "fs_call \<Rightarrow> jsstring option" where
  "removeFails c =
     (if c = Remove (js ''/app/temp/req0'') then Some (js ''EBUSY: resource busy or locked'')
      else None)"

definition noFault :: "nat \<Rightarrow> tg_call \<Rightarrow> jsstring option" where
  "noFault k c = None"

definition replyFails :: "nat \<Rightarrow> tg_call \<Rightarrow> jsstring option" where
  "replyFails k c = (if c = Reply Downloading then Some (js ''ETIMEDOUT'') else None)"

definition startWorld :: world where
  "startWorld =
     \<lparr>fs = Map.empty, issued = 0, spawned = [], terminated = [], sent = [],
      userSessions = Map.empty\<rparr>"

definition defaultConfig :: DownloaderConfig where
  "defaultConfig = loadConfig None None"

definition textMessage :: "int \<Rightarrow> jsstring \<Rightarrow> update" where
  "textMessage userId txt = \<lparr>from_id = Some userId, chat_id = Some 1, message_text = Some txt\<rparr>"


section \<open>Properties of the string primitives\<close>

lemma startsWith_iff: "startsWith s p \<longleftrightarrow> (\<exists>b. s = p @ b)"
  by (induction s p rule: startsWith.induct) auto

lemma str_includes_iff: "str_includes s p \<longleftrightarrow> (\<exists>a b. s = a @ p @ b)"
proof (induction s)
  case Nil
  show ?case by (cases p) auto
next
  case (Cons x s)
  show ?case
  proof
    assume "str_includes (x # s) p"
    then consider "startsWith (x # s) p" | "str_includes s p" by auto
    then show "\<exists>a b. x # s = a @ p @ b"
    proof cases
      case 1
      then obtain b where "x # s = p @ b" by (auto simp: startsWith_iff)
      then have "x # s = [] @ p @ b" by simp
      then show ?thesis by blast
    next
      case 2
      then obtain a b where "s = a @ p @ b" using Cons.IH by blast
      then have "x # s = (x # a) @ p @ b" by simp
      then show ?thesis by blast
    qed
  next
    assume "\<exists>a b. x # s = a @ p @ b"
    then obtain a b where ab: "x # s = a @ p @ b" by blast
    show "str_includes (x # s) p"
    proof (cases a)
      case Nil
      with ab have "startsWith (x # s) p" by (auto simp: startsWith_iff)
      then show ?thesis by simp
    next
      case (Cons y a')
      with ab have "s = a' @ p @ b" by simp
      then have "str_includes s p" using Cons.IH by blast
      then show ?thesis by simp
    qed
  qed
qed

lemma endsWith_iff: "endsWith s p \<longleftrightarrow> (\<exists>a. s = a @ p)"
proof
  assume "endsWith s p"
  then obtain b where "rev s = rev p @ b" by (auto simp: endsWith_def startsWith_iff)
  then have "rev (rev s) = rev (rev p @ b)" by simp
  then have "s = rev b @ p" by simp
  then show "\<exists>a. s = a @ p" by blast
next
  assume "\<exists>a. s = a @ p"
  then show "endsWith s p" by (auto simp: endsWith_def startsWith_iff)
qed

lemma map_eq_appendD:
  assumes "map f xs = a @ b"
  shows "\<exists>x1 x2. xs = x1 @ x2 \<and> map f x1 = a \<and> map f x2 = b"
proof -
  have "map f (take (length a) xs) = a"
    using assms by (metis append_eq_conv_conj take_map)
  moreover have "map f (drop (length a) xs) = b"
    using assms by (metis append_eq_conv_conj drop_map)
  moreover have "xs = take (length a) xs @ drop (length a) xs" by simp
  ultimately show ?thesis by blast
qed

lemma variant_lowered:
  assumes "list_all2 sameLetter m k"
    and "list_all (\<lambda>c. c < 128 \<and> \<not> (65 \<le> c \<and> c \<le> 90)) k"
  shows "isAscii m \<and> map lowerUnit m = k"
  using assms
  by (induction rule: list_all2_induct) (auto simp: isAscii_def sameLetter_def lowerUnit_def)

lemma lowered_variant: "list_all2 sameLetter m (map lowerUnit m)"
  by (induction m) (auto simp: sameLetter_def lowerUnit_def)

lemma ruleKeywords_lower:
  "\<forall>w\<in>set ruleKeywords. list_all (\<lambda>c. c < 128 \<and> \<not> (65 \<le> c \<and> c \<le> 90)) (js w)"
  by (simp add: ruleKeywords_def js_def)

lemma lowersAscii_whole:
  assumes "lowersAscii lowerCase" and "isAscii text"
  shows "lowerCase text = map lowerUnit text"
proof -
  from assms obtain a' b' where
    "lowerCase ([] @ text @ []) = a' @ map lowerUnit text @ b'"
    "([]::jsstring) = [] \<longrightarrow> a' = []" "([]::jsstring) = [] \<longrightarrow> b' = []"
    unfolding lowersAscii_def by blast
  then show ?thesis by simp
qed

lemma occurs_detected:
  assumes L: "lowersAscii lowerCase"
    and K: "w \<in> set ruleKeywords"
    and O: "occursIgnoringCase w text"
  shows "\<exists>a b. lowerCase text = a @ js w @ b"
proof -
  from O obtain a m b where t: "text = a @ m @ b" and v: "list_all2 sameLetter m (js w)"
    unfolding occursIgnoringCase_def by blast
  from K ruleKeywords_lower
  have "list_all (\<lambda>c. c < 128 \<and> \<not> (65 \<le> c \<and> c \<le> 90)) (js w)" by blast
  from variant_lowered [OF v this] have m: "isAscii m" "map lowerUnit m = js w" by simp_all
  from L m(1) obtain a' b' where "lowerCase (a @ m @ b) = a' @ map lowerUnit m @ b'"
    unfolding lowersAscii_def by blast
  with t m(2) show ?thesis by auto
qed

lemma detected_occurs:
  assumes L: "lowersAscii lowerCase"
    and A: "isAscii text"
    and D: "\<exists>a b. lowerCase text = a @ js w @ b"
  shows "occursIgnoringCase w text"
proof -
  from D lowersAscii_whole [OF L A] obtain a b where "map lowerUnit text = a @ (js w @ b)"
    by auto
  from map_eq_appendD [OF this]
  obtain ta tr where t1: "text = ta @ tr" and t2: "map lowerUnit tr = js w @ b"
    by blast
  from map_eq_appendD [OF t2]
  obtain tm tb where t3: "tr = tm @ tb" and t4: "map lowerUnit tm = js w"
    by blast
  from lowered_variant [of tm] t4 have "list_all2 sameLetter tm (js w)" by simp
  with t1 t3 show ?thesis unfolding occursIgnoringCase_def by blast
qed

lemma lowersAscii_lowerSample: "lowersAscii lowerSample"
proof -
  have one: "isAscii m \<Longrightarrow> lowerSample m = map lowerUnit m" for m
    by (induction m) (auto simp: lowerSample_def isAscii_def)
  have app: "lowerSample (a @ b) = lowerSample a @ lowerSample b" for a b
    by (simp add: lowerSample_def)
  have nil: "lowerSample [] = []" by (simp add: lowerSample_def)
  show ?thesis unfolding lowersAscii_def
  proof (intro allI impI)
    fix a m b :: jsstring
    assume "isAscii m"
    then have "lowerSample (a @ m @ b) = lowerSample a @ map lowerUnit m @ lowerSample b"
      by (simp add: app one)
    with nil show "\<exists>a' b'. lowerSample (a @ m @ b) = a' @ map lowerUnit m @ b' \<and>
        (a = [] \<longrightarrow> a' = []) \<and> (b = [] \<longrightarrow> b' = [])"
      by blast
  qed
qed

section \<open>The classifier follows the fixed priority order\<close>

text \<open>
  C4. The classifier is a function of the diagnostic text (and of the platform's
  lower-casing, of which only its behaviour on ASCII is assumed). It is the ordered,
  first-match-wins rule list (private, then geo/blocked, then unavailable/deleted, then
  unsupported, then sign in/login, then the generic message) over the test that the
  lowered text contains the keyword. That test finds every occurrence of a keyword in
  any mix of upper and lower case, with any text before and after it; on an ASCII text it
  finds nothing else, so the classifier is there the rule list over case-insensitive
  occurrence. In particular a text that contains \<open>private\<close> in any mix of cases is
  classified as private content.
\<close>

theorem parseYtDlpError_priority:
  assumes "lowersAscii lowerCase"
  shows "parseYtDlpError lowerCase text =
           classifier (\<lambda>w. \<exists>a b. lowerCase text = a @ js w @ b) \<and>
         (\<forall>w\<in>set ruleKeywords. occursIgnoringCase w text \<longrightarrow>
            (\<exists>a b. lowerCase text = a @ js w @ b)) \<and>
         (isAscii text \<longrightarrow>
            parseYtDlpError lowerCase text = classifier (\<lambda>w. occursIgnoringCase w text)) \<and>
         (occursIgnoringCase ''private'' text \<longrightarrow>
            parseYtDlpError lowerCase text = MSG_PRIVATE)"
proof (intro conjI ballI impI)
  show rules: "parseYtDlpError lowerCase text =
      classifier (\<lambda>w. \<exists>a b. lowerCase text = a @ js w @ b)"
    unfolding parseYtDlpError_def classifier_def Let_def str_includes_iff ..
  show "\<exists>a b. lowerCase text = a @ js w @ b"
    if "w \<in> set ruleKeywords" "occursIgnoringCase w text" for w
    using occurs_detected [OF assms that] .
  show "parseYtDlpError lowerCase text = classifier (\<lambda>w. occursIgnoringCase w text)"
    if A: "isAscii text"
  proof -
    have eq: "(\<exists>a b. lowerCase text = a @ js w @ b) = occursIgnoringCase w text"
      if "w \<in> set ruleKeywords" for w
      using occurs_detected [OF assms that] detected_occurs [OF assms A] by blast
    have "classifier (\<lambda>w. \<exists>a b. lowerCase text = a @ js w @ b) =
        classifier (\<lambda>w. occursIgnoringCase w text)"
      unfolding classifier_def
      by (simp only: eq [of "''private''", unfolded ruleKeywords_def, simplified]
          eq [of "''geo''", unfolded ruleKeywords_def, simplified]
          eq [of "''blocked''", unfolded ruleKeywords_def, simplified]
          eq [of "''unavailable''", unfolded ruleKeywords_def, simplified]
          eq [of "''deleted''", unfolded ruleKeywords_def, simplified]
          eq [of "''unsupported''", unfolded ruleKeywords_def, simplified]
          eq [of "''sign in''", unfolded ruleKeywords_def, simplified]
          eq [of "''login''", unfolded ruleKeywords_def, simplified])
    with rules show ?thesis by simp
  qed
  show "parseYtDlpError lowerCase text = MSG_PRIVATE"
    if "occursIgnoringCase ''private'' text"
  proof -
    have "''private'' \<in> set ruleKeywords" by (simp add: ruleKeywords_def)
    from occurs_detected [OF assms this that] rules show ?thesis
      by (simp add: classifier_def)
  qed
qed

theorem parseYtDlpError_priority_witness:
  "lowersAscii lowerSample \<and>
   occursIgnoringCase ''private'' (js ''ERROR: geo blocked; this video is PriVate. Sign in'') \<and>
   parseYtDlpError lowerSample (js ''ERROR: geo blocked; this video is PriVate. Sign in'')
     = MSG_PRIVATE \<and>
   isAscii (js ''ERROR: Video unavailable'') \<and>
   parseYtDlpError lowerSample (js ''ERROR: Video unavailable'') = MSG_GONE"
proof -
  have split: "js ''ERROR: geo blocked; this video is PriVate. Sign in'' =
      js ''ERROR: geo blocked; this video is '' @ js ''PriVate'' @ js ''. Sign in''"
    by (simp add: js_def)
  have "list_all2 sameLetter (js ''PriVate'') (js ''private'')"
    by (simp add: js_def sameLetter_def)
  with split
  have occ: "occursIgnoringCase ''private'' (js ''ERROR: geo blocked; this video is PriVate. Sign in'')"
    unfolding occursIgnoringCase_def by blast
  have asc: "isAscii (js ''ERROR: Video unavailable'')"
    by (simp add: isAscii_def js_def)
  note T = parseYtDlpError_priority [OF lowersAscii_lowerSample]
  from T [of "js ''ERROR: geo blocked; this video is PriVate. Sign in''"] occ
  have p: "parseYtDlpError lowerSample (js ''ERROR: geo blocked; this video is PriVate. Sign in'')
      = MSG_PRIVATE"
    by blast
  from T [of "js ''ERROR: Video unavailable''"] asc
  have "classifier (\<lambda>w. \<exists>a b. lowerSample (js ''ERROR: Video unavailable'') = a @ js w @ b)
      = parseYtDlpError lowerSample (js ''ERROR: Video unavailable'')"
    by simp
  moreover have "parseYtDlpError lowerSample (js ''ERROR: Video unavailable'') = MSG_GONE"
    by (simp add: parseYtDlpError_def lowerSample_def lowerUnit_def js_def)
  ultimately show ?thesis using lowersAscii_lowerSample occ p asc by blast
qed

lemma parseYtDlpError_kelvin:
  "parseYtDlpError lowerSample (js ''ERROR: bloc'' @ [8490] @ js ''ed'') = MSG_REGION \<and>
   parseYtDlpError lowerSample (js ''bloc'' @ [8490] @ js ''ed, video unavailable'') = MSG_REGION"
  by (simp add: parseYtDlpError_def lowerSample_def lowerUnit_def js_def)

section \<open>Parsing the allow-list\<close>

lemma dropWhile_snoc_keep:
  assumes "\<not> P x"
  shows "\<exists>ys. dropWhile P (zs @ [x]) = ys @ [x]"
  using assms by (induction zs) auto

lemma trim_no_leading: "dropWhile isWhiteSpace (trim s) = trim s"
proof (cases "dropWhile isWhiteSpace s")
  case Nil
  show ?thesis unfolding trim_def Nil by simp
next
  case (Cons x a)
  then have nx: "\<not> isWhiteSpace x"
    by (metis hd_dropWhile list.sel(1) list.distinct(1))
  obtain ys where "dropWhile isWhiteSpace (rev a @ [x]) = ys @ [x]"
    using dropWhile_snoc_keep [of isWhiteSpace x "rev a"] nx by blast
  with Cons have "trim s = x # rev ys" by (simp add: trim_def)
  with nx show ?thesis by simp
qed

lemma takeWhile_digits:
  assumes "list_all isDigit ds" and "rest = [] \<or> \<not> isDigit (hd rest)"
  shows "takeWhile isDigit (ds @ rest) = ds"
proof -
  have "takeWhile isDigit rest = []" using assms(2) by (cases rest) auto
  moreover have "takeWhile isDigit (ds @ rest) = ds @ takeWhile isDigit rest"
    using assms(1) by (intro takeWhile_append2) (simp add: list_all_iff)
  ultimately show ?thesis by simp
qed

lemma toNumber_not_NaN: "toNumber n \<noteq> NaN"
  by (simp add: toNumber_def split: option.splits)

lemma roundToDouble_exact: "n \<le> 2 ^ 53 \<Longrightarrow> roundToDouble n = Some n"
proof (cases "n < 2 ^ 53")
  case True
  then show ?thesis by (simp add: roundToDouble_def)
next
  case False
  moreover assume "n \<le> 2 ^ 53"
  ultimately have n: "n = 9007199254740992" by simp
  have "bits 9007199254740992 = 54" by (simp add: bits.simps)
  then show ?thesis unfolding n by (simp add: roundToDouble_def Let_def)
qed

lemma toNumber_exact: "\<bar>n\<bar> \<le> 2 ^ 53 \<Longrightarrow> toNumber n = Num n"
proof -
  assume "\<bar>n\<bar> \<le> 2 ^ 53"
  then have "nat \<bar>n\<bar> \<le> 2 ^ 53" by (simp add: nat_le_iff)
  from roundToDouble_exact [OF this] show ?thesis by (simp add: toNumber_def)
qed

lemma toNumber_rounds: "toNumber 9007199254740993 = Num 9007199254740992"
proof -
  have "bits 9007199254740993 = 54" by (simp add: bits.simps)
  then show ?thesis by (simp add: toNumber_def roundToDouble_def Let_def)
qed

lemma parseInt_iff:
  "parseInt s = u \<and> u \<noteq> NaN \<longleftrightarrow>
     (\<exists>n. beginsWithInteger (dropWhile isWhiteSpace s) n \<and> u = toNumber n)"
proof -
  define S where "S = dropWhile isWhiteSpace s"
  define sg where "sg = (if S \<noteq> [] \<and> (hd S = 43 \<or> hd S = 45) then [hd S] else [])"
  define S' where "S' = (if S \<noteq> [] \<and> (hd S = 43 \<or> hd S = 45) then tl S else S)"
  define Z where "Z = takeWhile isDigit S'"
  have S: "S = sg @ S'" by (simp add: sg_def S'_def)
  have sg: "sg = [] \<or> sg = [43] \<or> sg = [45]" by (auto simp: sg_def)
  have sgn: "(if S \<noteq> [] \<and> hd S = 45 then - 1 else 1) = signOf sg"
    by (auto simp: sg_def signOf_def)
  have P: "parseInt s = (if Z = [] then NaN else toNumber (signOf sg * int (decimalValue Z)))"
    unfolding parseInt_def Let_def S_def [symmetric] sgn S'_def [symmetric] Z_def [symmetric] ..
  show ?thesis unfolding S_def [symmetric]
  proof
    assume "parseInt s = u \<and> u \<noteq> NaN"
    with P have Z: "Z \<noteq> []" and u: "u = toNumber (signOf sg * int (decimalValue Z))"
      by (auto split: if_splits)
    have "S = sg @ Z @ dropWhile isDigit S'" using S by (simp add: Z_def)
    moreover have "list_all isDigit Z"
      by (auto simp: Z_def list_all_iff dest: set_takeWhileD)
    moreover have "dropWhile isDigit S' = [] \<or> \<not> isDigit (hd (dropWhile isDigit S'))"
      using hd_dropWhile by blast
    ultimately have "beginsWithInteger S (signOf sg * int (decimalValue Z))"
      unfolding beginsWithInteger_def using sg Z by blast
    with u show "\<exists>n. beginsWithInteger S n \<and> u = toNumber n" by blast
  next
    assume "\<exists>n. beginsWithInteger S n \<and> u = toNumber n"
    then obtain n sg2 ds rest where d: "S = sg2 @ ds @ rest"
      and sg2: "sg2 = [] \<or> sg2 = [43] \<or> sg2 = [45]"
      and ds: "ds \<noteq> []" "list_all isDigit ds"
      and rest: "rest = [] \<or> \<not> isDigit (hd rest)"
      and n: "n = signOf sg2 * int (decimalValue ds)"
      and u: "u = toNumber n"
      unfolding beginsWithInteger_def by blast
    have hd_ds: "isDigit (hd ds)" using ds by (cases ds) auto
    have "sg = sg2 \<and> S' = ds @ rest"
    proof (cases "sg2 = []")
      case True
      with d ds have "hd S = hd ds" by simp
      with hd_ds have "hd S \<noteq> 43 \<and> hd S \<noteq> 45" by (auto simp: isDigit_def)
      with True d show ?thesis by (simp add: sg_def S'_def)
    next
      case False
      with sg2 d show ?thesis by (auto simp: sg_def S'_def)
    qed
    then have "sg = sg2" and "Z = ds"
      using takeWhile_digits [OF ds(2) rest] by (simp_all add: Z_def)
    with P ds n u show "parseInt s = u \<and> u \<noteq> NaN" by (simp add: toNumber_not_NaN)
  qed
qed

section \<open>The access gate admits the numbers its tokens begin with\<close>

text \<open>
  C6 (as amended). For every configuration string, \<open>isAllowed\<close> is true exactly for
  the Number values of the integers that some comma-separated token, trimmed, begins
  with: an optional sign and the longest run of decimal digits, whatever follows them. A
  token with no such beginning (an empty or non-numeric one) contributes no member. The
  Number value of an integer of magnitude up to \<open>2^53\<close> is that integer; beyond, it is
  the nearest double.
\<close>

theorem isAllowed_leading_integer:
  "(isAllowed (AccessControl env) u \<longleftrightarrow>
      (\<exists>t\<in>set (split 44 env). \<exists>n. beginsWithInteger (trim t) n \<and> u = toNumber n)) \<and>
   (\<forall>n. \<bar>n\<bar> \<le> 2 ^ 53 \<longrightarrow> toNumber n = Num n)"
proof
  have "isAllowed (AccessControl env) u \<longleftrightarrow>
      (\<exists>t\<in>set (split 44 env). parseInt (trim t) = u \<and> u \<noteq> NaN)"
    by (auto simp: isAllowed_def AccessControl_def)
  then show "isAllowed (AccessControl env) u \<longleftrightarrow>
      (\<exists>t\<in>set (split 44 env). \<exists>n. beginsWithInteger (trim t) n \<and> u = toNumber n)"
    by (simp only: parseInt_iff trim_no_leading)
  show "\<forall>n. \<bar>n\<bar> \<le> 2 ^ 53 \<longrightarrow> toNumber n = Num n"
    using toNumber_exact by blast
qed

theorem isAllowed_leading_integer_witness:
  "isAllowed (AccessControl (js ''12abc, 7 ,,x'')) (Num 7) \<and>
   \<not> isAllowed (AccessControl (js ''x,,y'')) (Num 0) \<and>
   isAllowed (AccessControl (js ''9007199254740993'')) (Num 9007199254740992)"
proof -
  have tok: "split 44 (js ''12abc, 7 ,,x'') = [js ''12abc'', js '' 7 '', [], js ''x'']"
    by (simp add: js_def)
  have seven: "toNumber 7 = Num 7"
    using isAllowed_leading_integer [of "[]" NaN] by simp
  have "trim (js '' 7 '') = [] @ [55] @ []"
    by (simp add: trim_def isWhiteSpace_def js_def)
  then have "beginsWithInteger (trim (js '' 7 '')) 7"
    unfolding beginsWithInteger_def
    by (intro exI [of _ "[]"] exI [of _ "[55]"])
      (simp add: isDigit_def decimalValue_def signOf_def)
  with seven have "\<exists>n. beginsWithInteger (trim (js '' 7 '')) n \<and> Num 7 = toNumber n"
    by (intro exI [of _ 7]) simp
  then have a: "isAllowed (AccessControl (js ''12abc, 7 ,,x'')) (Num 7)"
    using isAllowed_leading_integer [of "js ''12abc, 7 ,,x''" "Num 7"] by (simp add: tok)
  have tok2: "split 44 (js ''x,,y'') = [[120], [], [121]]"
    by (simp add: js_def)
  have nb: "\<not> beginsWithInteger [c] n" if "\<not> isDigit c" for c n
  proof
    assume "beginsWithInteger [c] n"
    then obtain sg ds rest where d: "[c] = sg @ ds @ rest"
      and sg: "sg = [] \<or> sg = [43] \<or> sg = [45]" and ds: "ds \<noteq> []" "list_all isDigit ds"
      unfolding beginsWithInteger_def by blast
    from d ds(1) have "ds = [c]"
      by (cases sg; cases ds) auto
    with ds that show False by simp
  qed
  have "\<not> beginsWithInteger [] n" for n
    unfolding beginsWithInteger_def by simp
  moreover have "trim [120] = [120]" "trim [121] = [121]" "trim [] = []"
    by (simp_all add: trim_def isWhiteSpace_def)
  ultimately have b: "\<not> isAllowed (AccessControl (js ''x,,y'')) (Num 0)"
    using isAllowed_leading_integer [of "js ''x,,y''" "Num 0"] nb [of 120] nb [of 121]
    by (simp add: tok2 isDigit_def)
  have tok3: "split 44 (js ''9007199254740993'') = [js ''9007199254740993'']"
    by (simp add: js_def)
  have "trim (js ''9007199254740993'') = [] @ js ''9007199254740993'' @ []"
    by (simp add: trim_def isWhiteSpace_def js_def)
  then have "beginsWithInteger (trim (js ''9007199254740993'')) 9007199254740993"
    unfolding beginsWithInteger_def
    by (intro exI [of _ "[]"] exI [of _ "js ''9007199254740993''"])
      (simp add: isDigit_def decimalValue_def signOf_def js_def)
  with toNumber_rounds
  have "\<exists>n. beginsWithInteger (trim (js ''9007199254740993'')) n \<and>
      Num 9007199254740992 = toNumber n"
    by (intro exI [of _ 9007199254740993]) simp
  then have c: "isAllowed (AccessControl (js ''9007199254740993'')) (Num 9007199254740992)"
    using isAllowed_leading_integer [of "js ''9007199254740993''" "Num 9007199254740992"]
    by (simp add: tok3)
  from a b c show ?thesis by blast
qed

lemma split_join: "split sep s \<noteq> [] \<and> concat (map (\<lambda>t. sep # t) (split sep s)) = sep # s
   \<and> (\<forall>t\<in>set (split sep s). sep \<notin> set t)"
  by (induction s) (auto split: list.splits)

text \<open>
  C6 as stated fails: the token \<open>12abc\<close> is not an integer numeral, yet it puts 12
  into the set.
\<close>

theorem isAllowed_malformed_token_counterexample:
  "split 44 (js ''12abc'') = [js ''12abc''] \<and>
   (\<forall>n. \<not> isIntegerNumeral (trim (js ''12abc'')) n) \<and>
   isAllowed (AccessControl (js ''12abc'')) (Num 12)"
proof -
  have tok: "split 44 (js ''12abc'') = [[49, 50, 97, 98, 99]]" by (simp add: js_def)
  have tr: "trim [49, 50, 97, 98, 99] = [49, 50, 97, 98, 99]"
    by (simp add: trim_def isWhiteSpace_def)
  have "parseInt [49, 50, 97, 98, 99] = Num 12"
    by (simp add: parseInt_def isWhiteSpace_def isDigit_def decimalValue_def toNumber_def
        roundToDouble_def)
  then have yes: "isAllowed (AccessControl (js ''12abc'')) (Num 12)"
    by (simp add: isAllowed_def AccessControl_def tok tr)
  have no: "\<not> isIntegerNumeral [49, 50, 97, 98, 99] n" for n
  proof
    assume "isIntegerNumeral [49, 50, 97, 98, 99] n"
    then obtain sg ds where d: "[49, 50, 97, 98, 99] = sg @ ds" and ds: "ds \<noteq> []" "list_all isDigit ds"
      unfolding isIntegerNumeral_def by blast
    from d ds(1) have "last ds = 99" by (metis last_appendR last.simps list.distinct(1))
    moreover from ds have "isDigit (last ds)" by (simp add: list_all_iff)
    ultimately show False by (simp add: isDigit_def)
  qed
  from yes no show ?thesis by (simp add: tok tr js_def)
qed


section \<open>The caption\<close>

lemma replaceAll_Cons:
  "replaceAll c r (x # s) = (if x = c then r else [x]) @ replaceAll c r s"
  by (simp add: replaceAll_def)

lemma replaceAll_append:
  "replaceAll c r (a @ b) = replaceAll c r a @ replaceAll c r b"
  by (simp add: replaceAll_def)

lemma replaceAll_Nil: "replaceAll c r [] = []"
  by (simp add: replaceAll_def)

lemma escape_passes:
  "replaceAll 62 (js ''&gt;'') (replaceAll 60 (js ''&lt;'') (replaceAll 38 (js ''&amp;'') t))
     = escapeHtml t"
proof (induction t)
  case Nil
  show ?case by (simp add: replaceAll_Nil escapeHtml_def)
next
  case (Cons x t)
  have one: "replaceAll 62 (js ''&gt;'') (replaceAll 60 (js ''&lt;'')
               (if x = 38 then js ''&amp;'' else [x]))
      = (if x = 38 then js ''&amp;'' else if x = 60 then js ''&lt;''
         else if x = 62 then js ''&gt;'' else [x])"
    by (simp add: js_def replaceAll_Cons replaceAll_Nil)
  have "escapeHtml (x # t) = (if x = 38 then js ''&amp;'' else if x = 60 then js ''&lt;''
         else if x = 62 then js ''&gt;'' else [x]) @ escapeHtml t"
    by (simp add: escapeHtml_def)
  with one Cons.IH show ?case
    by (simp only: replaceAll_Cons replaceAll_append)
qed

lemma caption_assembled:
  "buildCaption url t =
     (let full = titleLine t @ sourceLine url in
      if length full \<le> 1024 then full else take 1021 full @ js ''...'')"
proof -
  have "(case t of None \<Rightarrow> []
         | Some t \<Rightarrow>
             if t \<noteq> [] \<and> t \<noteq> js ''Unknown'' then
               (let escapedTitle =
                      replaceAll 62 (js ''&gt;'')
                        (replaceAll 60 (js ''&lt;'') (replaceAll 38 (js ''&amp;'') t))
                in js ''<b>'' @ escapedTitle @ js ''</b>'' @ [10])
             else []) = titleLine t"
    by (simp add: titleLine_def escape_passes split: option.splits)
  then show ?thesis
    unfolding buildCaption_def sourceLine_def Let_def
    by (simp add: not_le [symmetric])
qed

text \<open>
  C9. For every URL and title the caption is the title line (only for a title that is
  present, non-empty and not the placeholder \<open>Unknown\<close>; its \<open>&\<close>, \<open><\<close> and \<open>>\<close>
  escaped) followed by the source-link line; it never has more than 1024 code units, and
  when the two lines together have more, it is their first 1021 code units followed by
  \<open>...\<close>, exactly 1024 in all.
\<close>

theorem buildCaption_shape:
  "buildCaption url t =
     (let full = titleLine t @ sourceLine url in
      if length full \<le> 1024 then full else take 1021 full @ js ''...'') \<and>
   length (buildCaption url t) \<le> 1024 \<and>
   (1024 < length (titleLine t @ sourceLine url) \<longrightarrow>
      length (buildCaption url t) = 1024 \<and> endsWith (buildCaption url t) (js ''...''))"
proof (intro conjI impI)
  show "buildCaption url t =
     (let full = titleLine t @ sourceLine url in
      if length full \<le> 1024 then full else take 1021 full @ js ''...'')"
    by (rule caption_assembled)
  have "length (take 1021 (titleLine t @ sourceLine url) @ js ''...'') \<le> 1024"
    by (simp only: length_append length_take js_def length_map) simp
  then show "length (buildCaption url t) \<le> 1024"
    by (simp only: caption_assembled Let_def split: if_splits) simp
next
  assume long: "1024 < length (titleLine t @ sourceLine url)"
  then have eq: "buildCaption url t = take 1021 (titleLine t @ sourceLine url) @ js ''...''"
    by (simp add: caption_assembled Let_def)
  from long have "length (take 1021 (titleLine t @ sourceLine url)) = 1021"
    unfolding length_take by linarith
  then show "length (buildCaption url t) = 1024"
    unfolding eq by (simp only: length_append js_def length_map) simp
  show "endsWith (buildCaption url t) (js ''...'')"
    unfolding eq endsWith_iff by blast
qed

theorem buildCaption_shape_witness:
  "1024 < length (titleLine None @ sourceLine (replicate 1100 97)) \<and>
   length (buildCaption (replicate 1100 97) None) = 1024 \<and>
   endsWith (buildCaption (replicate 1100 97) None) (js ''...'') \<and>
   buildCaption (js ''https://a.io/x'') (Some (js ''a<b&c'')) =
     js ''<b>a&lt;b&amp;c</b>'' @ [10, 10, 55357, 56599] @ js '' <a href='' @ [34] @
     js ''https://a.io/x'' @ [34] @ js ''>Source</a>''"
proof -
  have long: "1024 < length (titleLine None @ sourceLine (replicate 1100 97))"
    by (simp add: titleLine_def sourceLine_def js_def)
  have short: "buildCaption (js ''https://a.io/x'') (Some (js ''a<b&c'')) =
     js ''<b>a&lt;b&amp;c</b>'' @ [10, 10, 55357, 56599] @ js '' <a href='' @ [34] @
     js ''https://a.io/x'' @ [34] @ js ''>Source</a>''"
    using buildCaption_shape [of "js ''https://a.io/x''" "Some (js ''a<b&c'')"]
    by (simp add: titleLine_def sourceLine_def escapeHtml_def js_def)
  from long short buildCaption_shape [of "replicate 1100 97" None]
  show ?thesis by blast
qed

section \<open>Extraction of URLs\<close>

lemma newSet_snoc:
  "newSet (xs @ [x]) = (if x \<in> set (newSet xs) then newSet xs else newSet xs @ [x])"
  by (simp add: newSet_def)

lemma set_newSet: "set (newSet xs) = set xs"
  by (induction xs rule: rev_induct) (auto simp: newSet_snoc, simp add: newSet_def)

lemma distinct_newSet: "distinct (newSet xs)"
  by (induction xs rule: rev_induct) (auto simp: newSet_snoc, simp add: newSet_def)

lemma firstOccurrences_snoc:
  "firstOccurrences (xs @ [x]) = firstOccurrences xs @ (if x \<in> set xs then [] else [x])"
proof -
  have A: "filter (\<lambda>i. (xs @ [x]) ! i \<notin> set (take i (xs @ [x]))) [0..<length xs]
         = filter (\<lambda>i. xs ! i \<notin> set (take i xs)) [0..<length xs]"
    by (rule filter_cong) (auto simp: nth_append)
  have B: "map (\<lambda>i. (xs @ [x]) ! i) (filter (\<lambda>i. xs ! i \<notin> set (take i xs)) [0..<length xs])
         = map (\<lambda>i. xs ! i) (filter (\<lambda>i. xs ! i \<notin> set (take i xs)) [0..<length xs])"
    by (rule map_cong) (auto simp: nth_append)
  have "firstOccurrences (xs @ [x]) =
      map (\<lambda>i. (xs @ [x]) ! i)
        (filter (\<lambda>i. (xs @ [x]) ! i \<notin> set (take i (xs @ [x]))) ([0..<length xs] @ [length xs]))"
    by (simp add: firstOccurrences_def)
  also have "\<dots> = map (\<lambda>i. (xs @ [x]) ! i)
        (filter (\<lambda>i. xs ! i \<notin> set (take i xs)) [0..<length xs]) @
        (if x \<in> set xs then [] else [x])"
    unfolding filter_append map_append A by simp
  finally show ?thesis unfolding B firstOccurrences_def .
qed

lemma newSet_firstOccurrences: "newSet xs = firstOccurrences xs"
proof (induction xs rule: rev_induct)
  case Nil
  show ?case by (simp add: newSet_def firstOccurrences_def)
next
  case (snoc x xs)
  have "newSet (xs @ [x]) = newSet xs @ (if x \<in> set xs then [] else [x])"
    unfolding newSet_snoc set_newSet by simp
  with snoc show ?case
    by (simp only: firstOccurrences_snoc)
qed

lemma matchAll_substrings:
  "m \<in> set (matchAll r prev s) \<Longrightarrow> \<exists>a b. s = a @ m @ b"
proof (induction r prev s rule: matchAll.induct)
  case (1 r prev s)
  note unfold = matchAll.simps [of r prev s]
  show ?case
  proof (cases "matchHere r prev s")
    case None
    with "1.prems" have mem: "m \<in> set (case s of [] \<Rightarrow> [] | x # xs \<Rightarrow> matchAll r (Some x) xs)"
      by (simp add: unfold)
    show ?thesis
    proof (cases s)
      case Nil
      with mem show ?thesis by simp
    next
      case (Cons x xs)
      with mem have "m \<in> set (matchAll r (Some x) xs)" by simp
      with "1.IH"(1) [OF None Cons] obtain a b where "xs = a @ m @ b" by blast
      with Cons have "s = (x # a) @ m @ b" by simp
      then show ?thesis by blast
    qed
  next
    case (Some rest)
    define n where "n = length s - length rest"
    show ?thesis
    proof (cases "n = 0")
      case True
      with Some "1.prems"
      have mem: "m = [] \<or> m \<in> set (case s of [] \<Rightarrow> [] | x # xs \<Rightarrow> matchAll r (Some x) xs)"
        by (simp add: unfold n_def)
      show ?thesis
      proof (cases "m = []")
        case True
        then have "s = [] @ m @ s" by simp
        then show ?thesis by blast
      next
        case False
        with mem have mem': "m \<in> set (case s of [] \<Rightarrow> [] | x # xs \<Rightarrow> matchAll r (Some x) xs)"
          by simp
        show ?thesis
        proof (cases s)
          case Nil
          with mem' show ?thesis by simp
        next
          case (Cons x xs)
          with mem' have "m \<in> set (matchAll r (Some x) xs)" by simp
          with "1.IH"(2) [OF Some n_def True Cons] obtain a b where "xs = a @ m @ b" by blast
          with Cons have "s = (x # a) @ m @ b" by simp
          then show ?thesis by blast
        qed
      qed
    next
      case False
      with Some "1.prems"
      have "m = take n s \<or> m \<in> set (matchAll r (Some (s ! (n - 1))) (drop n s))"
        by (simp add: unfold n_def Let_def)
      then show ?thesis
      proof
        assume "m = take n s"
        then have "s = [] @ m @ drop n s" by simp
        then show ?thesis by blast
      next
        assume "m \<in> set (matchAll r (Some (s ! (n - 1))) (drop n s))"
        with "1.IH"(3) [OF Some n_def False] obtain a b where "drop n s = a @ m @ b" by blast
        then have "take n s @ drop n s = take n s @ a @ m @ b" by (simp only:)
        then have "s = (take n s @ a) @ m @ b" by simp
        then show ?thesis by blast
      qed
    qed
  qed
qed

lemma extractUrls_newSet: "extractUrls txt = newSet (matchAll URL_REGEX None txt)"
  by (cases "matchAll URL_REGEX None txt = []") (simp_all add: extractUrls_def Let_def newSet_def)

lemma newSet_replicate: "newSet (replicate (Suc n) u) = [u]"
  by (induction n) (simp_all add: newSet_def)

text \<open>
  C8. For every text \<open>extractUrls\<close> returns the matches of the URL pattern, each a
  substring of the text, in the order of their first occurrence and without
  repetitions: no match gives the empty sequence, one match a singleton, and a link
  matched several times a single entry.
\<close>

theorem extractUrls_first_occurrences:
  "extractUrls txt = firstOccurrences (matchAll URL_REGEX None txt) \<and>
   distinct (extractUrls txt) \<and>
   set (extractUrls txt) = set (matchAll URL_REGEX None txt) \<and>
   (\<forall>u\<in>set (extractUrls txt). \<exists>a b. txt = a @ u @ b) \<and>
   (matchAll URL_REGEX None txt = [] \<longrightarrow> extractUrls txt = []) \<and>
   (\<forall>u. matchAll URL_REGEX None txt = [u] \<longrightarrow> extractUrls txt = [u]) \<and>
   (\<forall>u n. matchAll URL_REGEX None txt = replicate (Suc n) u \<longrightarrow> extractUrls txt = [u])"
proof (intro conjI allI impI ballI)
  show "extractUrls txt = firstOccurrences (matchAll URL_REGEX None txt)"
    by (simp only: extractUrls_newSet newSet_firstOccurrences)
  show "distinct (extractUrls txt)"
    by (simp only: extractUrls_newSet distinct_newSet)
  show "set (extractUrls txt) = set (matchAll URL_REGEX None txt)"
    by (simp only: extractUrls_newSet set_newSet)
next
  fix u
  assume "u \<in> set (extractUrls txt)"
  then have "u \<in> set (matchAll URL_REGEX None txt)"
    by (simp only: extractUrls_newSet set_newSet)
  then show "\<exists>a b. txt = a @ u @ b"
    by (rule matchAll_substrings)
next
  assume "matchAll URL_REGEX None txt = []"
  then show "extractUrls txt = []"
    by (simp add: extractUrls_newSet newSet_def)
next
  fix u
  assume "matchAll URL_REGEX None txt = [u]"
  then show "extractUrls txt = [u]"
    by (simp add: extractUrls_newSet newSet_def)
next
  fix u n
  assume "matchAll URL_REGEX None txt = replicate (Suc n) u"
  then show "extractUrls txt = [u]"
    by (simp only: extractUrls_newSet newSet_replicate)
qed

lemmas regex_eval = matchAll.simps giveBack.simps URL_REGEX_def js_def lowerUnit_def hostClass_def tldClass_def
  tailClass_def isAlnum_def isWordChar_def

theorem extractUrls_first_occurrences_witness:
  "extractUrls (js ''no link here'') = [] \<and>
   extractUrls (js ''check this out https://tiktok.com/@x/video/1 cool right?'')
     = [js ''https://tiktok.com/@x/video/1''] \<and>
   extractUrls (js ''https://a.io/x https://a.io/x https://a.io/x'') = [js ''https://a.io/x''] \<and>
   extractUrls (js ''https://b.io https://a.io https://b.io'') = [js ''https://b.io'', js ''https://a.io''] \<and>
   (\<exists>a b. js ''check this out https://tiktok.com/@x/video/1 cool right?''
      = a @ js ''https://tiktok.com/@x/video/1'' @ b)"
proof -
  have m0: "matchAll URL_REGEX None (js ''no link here'') = []"
    by (simp add: regex_eval)
  have m1: "matchAll URL_REGEX None
      (js ''check this out https://tiktok.com/@x/video/1 cool right?'')
      = [js ''https://tiktok.com/@x/video/1'']"
    by (simp add: regex_eval)
  have m3: "matchAll URL_REGEX None (js ''https://a.io/x https://a.io/x https://a.io/x'')
      = replicate (Suc 2) (js ''https://a.io/x'')"
    by (simp add: regex_eval numeral_2_eq_2)
  have m4: "matchAll URL_REGEX None (js ''https://b.io https://a.io https://b.io'')
      = [js ''https://b.io'', js ''https://a.io'', js ''https://b.io'']"
    by (simp add: regex_eval)
  have f4: "firstOccurrences [js ''https://b.io'', js ''https://a.io'', js ''https://b.io'']
      = [js ''https://b.io'', js ''https://a.io'']"
    by (simp add: firstOccurrences_def js_def upt_rec)
  note t0 = extractUrls_first_occurrences [of "js ''no link here''"]
  note t1 = extractUrls_first_occurrences
    [of "js ''check this out https://tiktok.com/@x/video/1 cool right?''"]
  note t3 = extractUrls_first_occurrences [of "js ''https://a.io/x https://a.io/x https://a.io/x''"]
  note t4 = extractUrls_first_occurrences [of "js ''https://b.io https://a.io https://b.io''"]
  from t0 m0 have a: "extractUrls (js ''no link here'') = []" by blast
  from t1 m1 have b: "extractUrls (js ''check this out https://tiktok.com/@x/video/1 cool right?'')
     = [js ''https://tiktok.com/@x/video/1'']" by blast
  from t3 m3 have c: "extractUrls (js ''https://a.io/x https://a.io/x https://a.io/x'')
     = [js ''https://a.io/x'']" by blast
  from t4 have "extractUrls (js ''https://b.io https://a.io https://b.io'')
     = firstOccurrences (matchAll URL_REGEX None (js ''https://b.io https://a.io https://b.io''))"
    by blast
  with m4 f4 have d: "extractUrls (js ''https://b.io https://a.io https://b.io'')
     = [js ''https://b.io'', js ''https://a.io'']" by simp
  from t1 have "\<forall>u\<in>set (extractUrls
      (js ''check this out https://tiktok.com/@x/video/1 cool right?'')).
      \<exists>a b. js ''check this out https://tiktok.com/@x/video/1 cool right?'' = a @ u @ b"
    by (rule conjunct1 [OF conjunct2 [OF conjunct2 [OF conjunct2]]])
  with b have e: "\<exists>a b. js ''check this out https://tiktok.com/@x/video/1 cool right?''
      = a @ js ''https://tiktok.com/@x/video/1'' @ b"
    by simp
  from a b c d e show ?thesis by blast
qed

section \<open>The argument vector\<close>

text \<open>
  C7 (as amended). Both attempts pass the platform-specific arguments (the stricter
  format selector and the forced H.264/AAC re-encoding) exactly when the URL string
  contains \<open>instagram.com\<close> anywhere, and the generic arguments otherwise; these are
  the arguments of the process that is spawned.
\<close>

theorem instagram_branch_iff_url_contains:
  "runYtDlp_args url tempDir =
     [js ''--no-playlist'', js ''--no-progress''] @
     (if \<exists>a b. url = a @ js ''instagram.com'' @ b then
        [js ''-f'', js ''bestvideo[ext=mp4]+bestaudio[ext=m4a]/best[ext=mp4]/best'',
         js ''--merge-output-format'', js ''mp4'', js ''--postprocessor-args'',
         js ''ffmpeg:-c:v libx264 -c:a aac -pix_fmt yuv420p -movflags +faststart'']
      else
        [js ''-f'', js ''bestvideo+bestaudio/best'', js ''--merge-output-format'', js ''mp4'',
         js ''--remux-video'', js ''mp4'']) @
     [js ''-o'', join tempDir (js ''%(title)s.%(ext)s''), url] \<and>
   runYtDlpLowerQuality_args url tempDir =
     [js ''--no-playlist'', js ''--no-progress''] @
     (if \<exists>a b. url = a @ js ''instagram.com'' @ b then
        [js ''-f'',
         js ''bestvideo[height<=480][ext=mp4]+bestaudio[ext=m4a]/best[height<=480][ext=mp4]/best'',
         js ''--merge-output-format'', js ''mp4'', js ''--postprocessor-args'',
         js ''ffmpeg:-c:v libx264 -c:a aac -pix_fmt yuv420p -movflags +faststart'']
      else
        [js ''-f'', js ''bestvideo[height<=480]+bestaudio/best[height<=480]/best'',
         js ''--merge-output-format'', js ''mp4'', js ''--remux-video'', js ''mp4'']) @
     [js ''-o'', join tempDir (js ''%(title)s.%(ext)s''), url] \<and>
   spawned (snd (runYtDlp e config url tempDir w)) = spawned w @ [runYtDlp_args url tempDir] \<and>
   spawned (snd (runYtDlpLowerQuality e config url tempDir w)) =
     spawned w @ [runYtDlpLowerQuality_args url tempDir]"
proof (intro conjI)
  show "spawned (snd (runYtDlp e config url tempDir w)) = spawned w @ [runYtDlp_args url tempDir]"
    by (simp add: runYtDlp_def spawnAndAwait_def Let_def)
  show "spawned (snd (runYtDlpLowerQuality e config url tempDir w)) =
     spawned w @ [runYtDlpLowerQuality_args url tempDir]"
    by (simp add: runYtDlpLowerQuality_def spawnAndAwait_def Let_def)
qed (simp_all only: runYtDlp_args_def runYtDlpLowerQuality_args_def Let_def str_includes_iff)

theorem instagram_branch_iff_url_contains_witness:
  "runYtDlp_args (js ''https://www.instagram.com/reel/abc'') (js ''/app/temp/r1'') ! 6
     = js ''--postprocessor-args'' \<and>
   runYtDlp_args (js ''https://youtu.be/abc'') (js ''/app/temp/r1'') ! 6 = js ''--remux-video''"
proof -
  have yes: "\<exists>a b. js ''https://www.instagram.com/reel/abc'' = a @ js ''instagram.com'' @ b"
    by (intro exI [of _ "js ''https://www.''"] exI [of _ "js ''/reel/abc''"]) (simp add: js_def)
  have "\<not> str_includes (js ''https://youtu.be/abc'') (js ''instagram.com'')"
    by (simp add: js_def)
  then have no: "\<not> (\<exists>a b. js ''https://youtu.be/abc'' = a @ js ''instagram.com'' @ b)"
    unfolding str_includes_iff .
  from yes instagram_branch_iff_url_contains
    [of "js ''https://www.instagram.com/reel/abc''" "js ''/app/temp/r1''"]
  have a: "runYtDlp_args (js ''https://www.instagram.com/reel/abc'') (js ''/app/temp/r1'') ! 6
     = js ''--postprocessor-args''"
    by (simp only: if_True) simp
  from no instagram_branch_iff_url_contains [of "js ''https://youtu.be/abc''" "js ''/app/temp/r1''"]
  have b: "runYtDlp_args (js ''https://youtu.be/abc'') (js ''/app/temp/r1'') ! 6 = js ''--remux-video''"
    by (simp only: if_False) simp
  from a b show ?thesis ..
qed

text \<open>
  C7 as stated fails: the host of \<open>https://example.com/instagram.com\<close> does not
  contain \<open>instagram.com\<close>, and the URL still gets the platform-specific arguments.
\<close>

theorem instagram_host_check_counterexample:
  "\<not> (runYtDlp_args (js ''https://example.com/instagram.com'') (js ''/app/temp/r1'') ! 6
        = js ''--postprocessor-args''
      \<longleftrightarrow> str_includes (urlHost (js ''https://example.com/instagram.com'')) (js ''instagram.com''))"
proof -
  have "urlHost (js ''https://example.com/instagram.com'') = js ''example.com''"
    by (simp add: urlHost_def js_def)
  moreover have "\<not> str_includes (js ''example.com'') (js ''instagram.com'')"
    by (simp add: js_def)
  moreover have "runYtDlp_args (js ''https://example.com/instagram.com'') (js ''/app/temp/r1'') ! 6
        = js ''--postprocessor-args''"
    by (simp add: runYtDlp_args_def js_def)
  ultimately show ?thesis by simp
qed

section \<open>One attempt and its promise\<close>

lemma foldl_stderr:
  "foldl (onEvent e d f) a (map StderrData cs) = a\<lparr>errorOutput := errorOutput a @ concat cs\<rparr>"
  by (induction cs arbitrary: a) (simp_all add: onEvent_def)

lemma resolve_settled: "\<exists>y. settled (resolve r a) = Some y"
  by (cases "settled a") (simp_all add: resolve_def)

lemma resolve_fields:
  "timerArmed (resolve r a) = timerArmed a"
  "timerRuns (resolve r a) = timerRuns a"
  "killsSent (resolve r a) = killsSent a"
  by (simp_all add: resolve_def split: option.splits)

lemma onEvent_Close_fields:
  "timerArmed (onEvent e d f a (Close c)) = False"
  "timerRuns (onEvent e d f a (Close c)) = timerRuns a"
  "killsSent (onEvent e d f a (Close c)) = killsSent a"
  "settled (onEvent e d f a (Close c)) \<noteq> None"
  by (simp_all add: onEvent_def Let_def resolve_fields resolve_settled
        split: sum.splits option.splits)

lemma onEvent_Error_fields:
  "timerArmed (onEvent e d f a (Error m)) = False"
  "timerRuns (onEvent e d f a (Error m)) = timerRuns a"
  "killsSent (onEvent e d f a (Error m)) = killsSent a"
  "settled (onEvent e d f a (Error m)) \<noteq> None"
  by (simp_all add: onEvent_def resolve_fields resolve_settled)

lemma onEvent_disarmed:
  assumes "\<not> timerArmed a"
  shows "\<not> timerArmed (onEvent e d f a ev) \<and> timerRuns (onEvent e d f a ev) = timerRuns a \<and>
         killsSent (onEvent e d f a ev) = killsSent a"
  using assms
  by (cases ev) (simp_all add: onEvent_def Let_def resolve_fields split: sum.splits option.splits)

lemma onEvent_settled_stays:
  assumes "settled a = Some r"
  shows "settled (onEvent e d f a ev) = Some r"
  using assms
  by (cases ev) (simp_all add: onEvent_def Let_def resolve_def split: sum.splits option.splits)

lemma disarmed_forever:
  assumes "\<not> timerArmed a"
  shows "\<not> timerArmed (foldl (onEvent e d f) a es) \<and>
         timerRuns (foldl (onEvent e d f) a es) = timerRuns a \<and>
         killsSent (foldl (onEvent e d f) a es) = killsSent a"
  using assms
proof (induction es arbitrary: a)
  case Nil
  then show ?case by simp
next
  case (Cons ev es)
  from onEvent_disarmed [OF Cons.prems, of e d f ev] Cons.IH [of "onEvent e d f a ev"]
  show ?case by simp
qed

lemma runAttempt_deadline:
  assumes "notExitedBy delay p"
  shows "runAttempt e d f delay p =
     \<lparr>timerArmed = False, timerRuns = 1, killsSent = 1, errorOutput = concat (stderr p),
      settled = Some (failure (js ''Download timeout''))\<rparr>"
  using assms
  by (cases "ending p")
     (simp_all add: notExitedBy_def runAttempt_def schedule_def foldl_stderr newAttempt_def
        onEvent_def resolve_def Let_def)

lemma runAttempt_exited:
  assumes "exitedBefore delay p"
  shows "\<not> timerArmed (runAttempt e d f delay p) \<and> timerRuns (runAttempt e d f delay p) = 0 \<and>
         killsSent (runAttempt e d f delay p) = 0"
proof (cases "ending p")
  case (Closes t c)
  with assms have "runAttempt e d f delay p =
      foldl (onEvent e d f)
        (onEvent e d f (newAttempt\<lparr>errorOutput := concat (stderr p)\<rparr>) (Close c)) [TimerDue]"
    by (simp add: exitedBefore_def runAttempt_def schedule_def foldl_stderr newAttempt_def)
  moreover have "\<not> timerArmed (onEvent e d f (newAttempt\<lparr>errorOutput := concat (stderr p)\<rparr>) (Close c))"
    by (simp add: onEvent_Close_fields)
  ultimately show ?thesis
    using disarmed_forever [of "onEvent e d f (newAttempt\<lparr>errorOutput := concat (stderr p)\<rparr>) (Close c)" e d f "[TimerDue]"]
    by (simp add: onEvent_Close_fields newAttempt_def)
next
  case (SpawnError t m)
  with assms have "runAttempt e d f delay p =
      foldl (onEvent e d f)
        (onEvent e d f (newAttempt\<lparr>errorOutput := concat (stderr p)\<rparr>) (Error m)) [TimerDue]"
    by (simp add: exitedBefore_def runAttempt_def schedule_def foldl_stderr newAttempt_def)
  moreover have "\<not> timerArmed (onEvent e d f (newAttempt\<lparr>errorOutput := concat (stderr p)\<rparr>) (Error m))"
    by (simp add: onEvent_Error_fields)
  ultimately show ?thesis
    using disarmed_forever [of "onEvent e d f (newAttempt\<lparr>errorOutput := concat (stderr p)\<rparr>) (Error m)" e d f "[TimerDue]"]
    by (simp add: onEvent_Error_fields newAttempt_def)
next
  case NeverExits
  with assms show ?thesis by (simp add: exitedBefore_def)
qed

lemma foldl_settled_stays:
  "settled a = Some r \<Longrightarrow> settled (foldl (onEvent e d f) a es) = Some r"
  by (induction es arbitrary: a) (simp_all add: onEvent_settled_stays)

lemma onEvent_keeps:
  "settled a \<noteq> None \<Longrightarrow> settled (onEvent e d f a ev) \<noteq> None"
  using onEvent_settled_stays [of a _ e d f ev] by auto

lemma runAttempt_settles: "settled (runAttempt e d f delay p) \<noteq> None"
proof -
  define a0 where "a0 = newAttempt\<lparr>errorOutput := concat (stderr p)\<rparr>"
  have timer: "settled (onEvent e d f a0 TimerDue) \<noteq> None"
    by (simp add: a0_def newAttempt_def onEvent_def resolve_def)
  have close: "settled (onEvent e d f a0 (Close c)) \<noteq> None" for c
    using onEvent_Close_fields(4) .
  have err: "settled (onEvent e d f a0 (Error m)) \<noteq> None" for m
    using onEvent_Error_fields(4) .
  have run: "runAttempt e d f delay p =
      foldl (onEvent e d f) a0
        (case ending p of
           Closes t code \<Rightarrow> if t < delay then [Close code, TimerDue] else [TimerDue, Close None]
         | SpawnError t msg \<Rightarrow> if t < delay then [Error msg, TimerDue] else [TimerDue, Error msg]
         | NeverExits \<Rightarrow> [TimerDue, Close None])"
    by (simp add: runAttempt_def schedule_def foldl_stderr a0_def newAttempt_def)
  show ?thesis
    unfolding run
    by (cases "ending p") (simp_all add: onEvent_keeps timer close err del: not_None_eq)
qed


lemma spawnAndAwait_not_Pending: "fst (spawnAndAwait e config args d w) \<noteq> Pending"
  using runAttempt_settles
  by (auto simp: spawnAndAwait_def Let_def split: option.splits)

lemma spawnAndAwait_not_Thrown: "fst (spawnAndAwait e config args d w) \<noteq> Thrown m"
  by (auto simp: spawnAndAwait_def Let_def split: option.splits)

lemma spawnAndAwait_world:
  "userSessions (snd (spawnAndAwait e config args d w)) = userSessions w"
  "sent (snd (spawnAndAwait e config args d w)) = sent w"
  "spawned (snd (spawnAndAwait e config args d w)) = spawned w @ [args]"
  "issued (snd (spawnAndAwait e config args d w)) = issued w"
  by (simp_all add: spawnAndAwait_def Let_def)

lemma createTempDir_cases:
  "createTempDir e requestId w =
     (case fsFault e (EnsureDir (join (TEMP_BASE_DIR e) requestId)) of
        Some msg \<Rightarrow> (Thrown msg, w)
      | None \<Rightarrow> (Returned (join (TEMP_BASE_DIR e) requestId),
           w\<lparr>fs := (case fs w (join (TEMP_BASE_DIR e) requestId) of
                      None \<Rightarrow> (fs w)(join (TEMP_BASE_DIR e) requestId \<mapsto> [])
                    | Some _ \<Rightarrow> fs w)\<rparr>))"
  by (simp add: createTempDir_def Let_def)

lemma createTempDir_world:
  "userSessions (snd (createTempDir e r w)) = userSessions w"
  "sent (snd (createTempDir e r w)) = sent w"
  "spawned (snd (createTempDir e r w)) = spawned w"
  "terminated (snd (createTempDir e r w)) = terminated w"
  "issued (snd (createTempDir e r w)) = issued w"
  "fst (createTempDir e r w) \<noteq> Pending"
  by (simp_all add: createTempDir_cases split: option.splits)

lemma cleanupTempDir_world:
  "userSessions (cleanupTempDir e d w) = userSessions w"
  "sent (cleanupTempDir e d w) = sent w"
  "spawned (cleanupTempDir e d w) = spawned w"
  "terminated (cleanupTempDir e d w) = terminated w"
  "issued (cleanupTempDir e d w) = issued w"
  by (simp_all add: cleanupTempDir_def split: option.splits)

lemma cleanupTempDir_removed:
  "fsFault e (Remove d) = None \<Longrightarrow> fs (cleanupTempDir e d w) d = None"
  by (simp add: cleanupTempDir_def fs_remove_def)

lemma cleanupTempDir_failed:
  "fsFault e (Remove d) \<noteq> None \<Longrightarrow> cleanupTempDir e d w = w"
  by (auto simp: cleanupTempDir_def)

lemma downloadLowerQuality_props:
  "fst (downloadLowerQuality e config url r w) \<noteq> Pending \<and>
   userSessions (snd (downloadLowerQuality e config url r w)) = userSessions w \<and>
   sent (snd (downloadLowerQuality e config url r w)) = sent w"
proof (cases "createTempDir e r w")
  case (Pair o1 w1)
  note c = createTempDir_world [of e r w, unfolded Pair, simplified]
  show ?thesis
  proof (cases o1)
    case (Returned d)
    obtain o2 w2 where run: "runYtDlpLowerQuality e config url d w1 = (o2, w2)"
      by (cases "runYtDlpLowerQuality e config url d w1")
    have np: "o2 \<noteq> Pending" and w2: "userSessions w2 = userSessions w1" "sent w2 = sent w1"
      using spawnAndAwait_not_Pending [of e config "runYtDlpLowerQuality_args url d" d w1]
        spawnAndAwait_world [of e config "runYtDlpLowerQuality_args url d" d w1] run
      by (simp_all add: runYtDlpLowerQuality_def)
    with c show ?thesis
      by (cases o2)
         (simp_all add: downloadLowerQuality_def Pair Returned run cleanupTempDir_world
            split: sum.splits prod.splits)
  next
    case (Thrown m)
    with c show ?thesis by (simp add: downloadLowerQuality_def Pair)
  next
    case Pending
    with c show ?thesis by simp
  qed
qed

lemma download_props:
  "fst (download e config url w) \<noteq> Pending \<and>
   userSessions (snd (download e config url w)) = userSessions w \<and>
   sent (snd (download e config url w)) = sent w"
proof -
  define r where "r = uuidv4 e (issued w)"
  define w0 where "w0 = w\<lparr>issued := Suc (issued w)\<rparr>"
  obtain o1 w1 where Pair: "createTempDir e r w0 = (o1, w1)" by (cases "createTempDir e r w0")
  note c = createTempDir_world [of e r w0, unfolded Pair, simplified]
  have w0: "userSessions w0 = userSessions w" "sent w0 = sent w" by (simp_all add: w0_def)
  have unfold: "download e config url w =
     (case (o1, w1) of
        (Thrown msg, w1) \<Rightarrow> (Thrown msg, w1)
      | (Pending, w1) \<Rightarrow> (Pending, w1)
      | (Returned tempDir, w1) \<Rightarrow>
          (case runYtDlp e config url tempDir w1 of
             (Pending, w2) \<Rightarrow> (Pending, w2)
           | (Thrown msg, w2) \<Rightarrow> (Returned (failure msg), cleanupTempDir e tempDir w2)
           | (Returned result, w2) \<Rightarrow>
               if \<not> success result then (Returned result, cleanupTempDir e tempDir w2)
               else
                 (case statResult e w2 result of
                    Inl msg \<Rightarrow> (Returned (failure msg), cleanupTempDir e tempDir w2)
                  | Inr (p, bytes) \<Rightarrow>
                      if tooLarge config bytes then
                        (case downloadLowerQuality e config url r
                                (cleanupTempDir e tempDir w2) of
                           (Thrown msg, w3) \<Rightarrow>
                             (Returned (failure msg), cleanupTempDir e tempDir w3)
                         | other \<Rightarrow> other)
                      else
                        (Returned
                           \<lparr>success = True, filePath = Some p, title = title result,
                            error = None, fileSize = Some bytes\<rparr>, w2))))"
    using Pair unfolding download_def Let_def r_def w0_def by simp
  show ?thesis
  proof (cases o1)
    case (Returned d)
    obtain o2 w2 where run: "runYtDlp e config url d w1 = (o2, w2)"
      by (cases "runYtDlp e config url d w1")
    have np: "o2 \<noteq> Pending" and w2: "userSessions w2 = userSessions w1" "sent w2 = sent w1"
      using spawnAndAwait_not_Pending [of e config "runYtDlp_args url d" d w1]
        spawnAndAwait_world [of e config "runYtDlp_args url d" d w1] run
      by (simp_all add: runYtDlp_def)
    show ?thesis
    proof (cases o2)
      case (Returned result)
      obtain o3 w3 where low:
        "downloadLowerQuality e config url r (cleanupTempDir e d w2) = (o3, w3)"
        by (cases "downloadLowerQuality e config url r (cleanupTempDir e d w2)")
      from downloadLowerQuality_props [of e config url r "cleanupTempDir e d w2"] low
      have l: "o3 \<noteq> Pending" "userSessions w3 = userSessions w2" "sent w3 = sent w2"
        by (simp_all add: cleanupTempDir_world)
      with c w0 w2 show ?thesis
        unfolding unfold
        by (cases o3)
           (simp_all add: \<open>o1 = Returned d\<close> run Returned low cleanupTempDir_world
              split: sum.splits prod.splits)
    next
      case (Thrown m)
      with c w0 w2 show ?thesis
        unfolding unfold by (simp add: \<open>o1 = Returned d\<close> run cleanupTempDir_world)
    next
      case Pending
      with np show ?thesis by simp
    qed
  next
    case (Thrown m)
    with c w0 show ?thesis unfolding unfold by simp
  next
    case Pending
    with c show ?thesis by simp
  qed
qed

lemma telegram_props:
  "fst (telegram e c w) \<noteq> Pending \<and> userSessions (snd (telegram e c w)) = userSessions w \<and>
   fs (snd (telegram e c w)) = fs w"
  by (simp add: telegram_def split: option.splits)


lemma sendVideo_props:
  "fst (sendVideo e result url w) \<noteq> Pending \<and>
   userSessions (snd (sendVideo e result url w)) = userSessions w"
proof (cases "filePath result")
  case None
  then show ?thesis by (simp add: sendVideo_def)
next
  case (Some p)
  show ?thesis
  proof (cases "p = []")
    case True
    with Some show ?thesis by (simp add: sendVideo_def)
  next
    case False
    define c where "c = buildCaption url (title result)"
    obtain o1 w1 where t1: "telegram e (ReplyWithVideo p c) w = (o1, w1)"
      by (cases "telegram e (ReplyWithVideo p c) w")
    obtain o2 w2 where t2: "telegram e (ReplyWithDocument p c) w1 = (o2, w2)"
      by (cases "telegram e (ReplyWithDocument p c) w1")
    obtain o3 w3 where t3: "telegram e (Reply (FailedToSend (title result))) w2 = (o3, w3)"
      by (cases "telegram e (Reply (FailedToSend (title result))) w2")
    from telegram_props [of e "ReplyWithVideo p c" w] t1
    have p1: "o1 \<noteq> Pending" "userSessions w1 = userSessions w" by simp_all
    from telegram_props [of e "ReplyWithDocument p c" w1] t2
    have p2: "o2 \<noteq> Pending" "userSessions w2 = userSessions w1" by simp_all
    from telegram_props [of e "Reply (FailedToSend (title result))" w2] t3
    have p3: "o3 \<noteq> Pending" "userSessions w3 = userSessions w2" by simp_all
    have "sendVideo e result url w =
        (case (case (o1, w1) of
                 (Thrown _, w1) \<Rightarrow>
                   (case (o2, w2) of (Thrown _, w2) \<Rightarrow> (o3, w3) | done \<Rightarrow> done)
               | done \<Rightarrow> done) of (r, w') \<Rightarrow> (r, cleanupTempDir e p w'))"
      using t1 t2 t3 False unfolding sendVideo_def Let_def c_def
      by (simp add: Some split: outcome.splits)
    with p1 p2 p3 show ?thesis
      by (cases o1; cases o2; cases o3) (simp_all add: cleanupTempDir_world)
  qed
qed

lemma processUrl_props:
  "fst (processUrl e config ctx url w) \<noteq> Pending \<and>
   userSessions (snd (processUrl e config ctx url w)) = userSessions w"
proof -
  obtain o1 w1 where t1: "telegram e (Reply Downloading) w = (o1, w1)"
    by (cases "telegram e (Reply Downloading) w")
  from telegram_props [of e "Reply Downloading" w] t1
  have p1: "o1 \<noteq> Pending" "userSessions w1 = userSessions w" by simp_all
  define body where "body =
      (case download e config url w1 of
         (Thrown msg, w2) \<Rightarrow> (Thrown msg, w2)
       | (Pending, w2) \<Rightarrow> (Pending, w2)
       | (Returned result, w2) \<Rightarrow>
           if \<not> success result then
             telegram e (EditStatus (ErrorText (error result))) w2
           else
             (case telegram e (EditStatus DownloadComplete) w2 of
                (Returned _, w3) \<Rightarrow>
                  (case sendVideo e result url w3 of
                     (Returned _, w4) \<Rightarrow>
                       (Returned (), snd (telegram e DeleteStatus w4))
                   | failed \<Rightarrow> failed)
              | failed \<Rightarrow> failed))"
  have unfold: "processUrl e config ctx url w =
     (case o1 of
        Thrown msg \<Rightarrow> (Thrown msg, w1)
      | Pending \<Rightarrow> (Pending, w1)
      | Returned _ \<Rightarrow>
          if chat_id ctx = None then (Returned (), w1)
          else (case body of (r, w') \<Rightarrow>
                  (case r of
                     Thrown msg \<Rightarrow> telegram e (EditStatus (FailedToProcess msg)) w'
                   | _ \<Rightarrow> (r, w'))))"
    unfolding processUrl_def body_def Let_def t1 by (cases o1) simp_all
  have body: "fst body \<noteq> Pending \<and> userSessions (snd body) = userSessions w1"
  proof -
    obtain o2 w2 where d: "download e config url w1 = (o2, w2)"
      by (cases "download e config url w1")
    from download_props [of e config url w1] d
    have p2: "o2 \<noteq> Pending" "userSessions w2 = userSessions w1" by simp_all
    show ?thesis
    proof (cases o2)
      case (Returned result)
      obtain o3 w3 where t3: "telegram e (EditStatus DownloadComplete) w2 = (o3, w3)"
        by (cases "telegram e (EditStatus DownloadComplete) w2")
      from telegram_props [of e "EditStatus DownloadComplete" w2] t3
      have p3: "o3 \<noteq> Pending" "userSessions w3 = userSessions w2" by simp_all
      obtain o4 w4 where s4: "sendVideo e result url w3 = (o4, w4)"
        by (cases "sendVideo e result url w3")
      from sendVideo_props [of e result url w3] s4
      have p4: "o4 \<noteq> Pending" "userSessions w4 = userSessions w3" by simp_all
      from p2 p3 p4 telegram_props [of e "EditStatus (ErrorText (error result))" w2]
        telegram_props [of e DeleteStatus w4]
      show ?thesis
        unfolding body_def d Returned
        by (cases o3; cases o4) (simp_all add: t3 s4)
    next
      case (Thrown m)
      with p2 show ?thesis unfolding body_def d by simp
    next
      case Pending
      with p2 show ?thesis by simp
    qed
  qed
  obtain r w' where b: "body = (r, w')" by (cases body)
  with body have pb: "r \<noteq> Pending" "userSessions w' = userSessions w1" by simp_all
  show ?thesis
  proof (cases o1)
    case (Returned u)
    show ?thesis
    proof (cases r)
      case (Thrown m)
      with pb p1 telegram_props [of e "EditStatus (FailedToProcess m)" w'] show ?thesis
        unfolding unfold Returned b by simp
    next
      case (Returned v)
      with pb p1 show ?thesis unfolding unfold \<open>o1 = Returned u\<close> b by simp
    next
      case Pending
      with pb show ?thesis by simp
    qed
  next
    case (Thrown m)
    with p1 show ?thesis unfolding unfold by simp
  next
    case Pending
    with p1 show ?thesis by simp
  qed
qed

lemma processAll_props:
  "fst (processAll e config ctx urls w) \<noteq> Pending \<and>
   userSessions (snd (processAll e config ctx urls w)) = userSessions w"
proof (induction urls arbitrary: w)
  case Nil
  show ?case by simp
next
  case (Cons url urls)
  obtain o1 w1 where p: "processUrl e config ctx url w = (o1, w1)"
    by (cases "processUrl e config ctx url w")
  from processUrl_props [of e config ctx url w] p
  have p1: "o1 \<noteq> Pending" "userSessions w1 = userSessions w" by simp_all
  with Cons.IH [of w1] show ?case
    by (cases o1) (simp_all add: p)
qed


section \<open>Timeout and quality fallback\<close>

lemma spawnAndAwait_deadline:
  assumes "notExitedBy (timerDelay (downloadTimeout config)) (ytDlp e (length (spawned w)) args)"
  shows "fst (spawnAndAwait e config args d w) = Returned (failure (js ''Download timeout''))"
    and "terminated (snd (spawnAndAwait e config args d w)) = terminated w @ [length (spawned w)]"
  using runAttempt_deadline [OF assms]
  by (simp_all add: spawnAndAwait_def Let_def)

lemma spawnAndAwait_exited:
  assumes "exitedBefore (timerDelay (downloadTimeout config)) (ytDlp e (length (spawned w)) args)"
  shows "terminated (snd (spawnAndAwait e config args d w)) = terminated w"
  using runAttempt_exited [OF assms]
  by (simp add: spawnAndAwait_def Let_def)

lemma failure_fields: "\<not> success (failure m)" "error (failure m) = Some m"
  by (simp_all add: failure_def)

lemma spawnAndAwait_fs: "fs (snd (spawnAndAwait e config args d w)) d \<noteq> None"
  by (simp add: spawnAndAwait_def Let_def)

lemma download_deadline:
  assumes dir: "tempDir = join (TEMP_BASE_DIR e) (uuidv4 e (issued w))"
    and ok: "fsFault e (EnsureDir tempDir) = None"
    and late: "notExitedBy (timerDelay (downloadTimeout config))
                 (ytDlp e (length (spawned w)) (runYtDlp_args url tempDir))"
  shows "fst (download e config url w) = Returned (failure (js ''Download timeout''))"
    and "fsFault e (Remove tempDir) = None \<Longrightarrow> fs (snd (download e config url w)) tempDir = None"
    and "fsFault e (Remove tempDir) \<noteq> None \<Longrightarrow> fs (snd (download e config url w)) tempDir \<noteq> None"
proof -
  define w0 where "w0 = w\<lparr>issued := Suc (issued w)\<rparr>"
  obtain w1 where c: "createTempDir e (uuidv4 e (issued w)) w0 = (Returned tempDir, w1)"
    and w1: "spawned w1 = spawned w0"
    using ok dir by (simp add: createTempDir_cases)
  obtain o2 w2 where run: "runYtDlp e config url tempDir w1 = (o2, w2)"
    by (cases "runYtDlp e config url tempDir w1")
  from late w1 have "notExitedBy (timerDelay (downloadTimeout config))
      (ytDlp e (length (spawned w1)) (runYtDlp_args url tempDir))"
    by (simp add: w0_def)
  from spawnAndAwait_deadline(1) [OF this, of tempDir] run
  have o2: "o2 = Returned (failure (js ''Download timeout''))"
    by (simp add: runYtDlp_def)
  from spawnAndAwait_fs [of e config "runYtDlp_args url tempDir" tempDir w1] run
  have there: "fs w2 tempDir \<noteq> None" by (simp add: runYtDlp_def)
  have d: "download e config url w =
      (Returned (failure (js ''Download timeout'')), cleanupTempDir e tempDir w2)"
    using c unfolding download_def Let_def w0_def
    by (simp add: run o2 failure_fields)
  from d show "fst (download e config url w) = Returned (failure (js ''Download timeout''))"
    by simp
  from d show "fs (snd (download e config url w)) tempDir = None"
    if "fsFault e (Remove tempDir) = None"
    using that by (simp add: cleanupTempDir_removed)
  from d there show "fs (snd (download e config url w)) tempDir \<noteq> None"
    if "fsFault e (Remove tempDir) \<noteq> None"
    using cleanupTempDir_failed [OF that, of w2] by simp
qed

lemma downloadLowerQuality_deadline:
  assumes dir: "tempDir = join (TEMP_BASE_DIR e) requestId"
    and ok: "fsFault e (EnsureDir tempDir) = None"
    and late: "notExitedBy (timerDelay (downloadTimeout config))
                 (ytDlp e (length (spawned w)) (runYtDlpLowerQuality_args url tempDir))"
  shows "fst (downloadLowerQuality e config url requestId w)
           = Returned (failure (js ''Download timeout''))"
    and "fsFault e (Remove tempDir) = None \<Longrightarrow>
           fs (snd (downloadLowerQuality e config url requestId w)) tempDir = None"
    and "fsFault e (Remove tempDir) \<noteq> None \<Longrightarrow>
           fs (snd (downloadLowerQuality e config url requestId w)) tempDir \<noteq> None"
proof -
  obtain w1 where c: "createTempDir e requestId w = (Returned tempDir, w1)"
    and w1: "spawned w1 = spawned w"
    using ok dir by (simp add: createTempDir_cases)
  obtain o2 w2 where run: "runYtDlpLowerQuality e config url tempDir w1 = (o2, w2)"
    by (cases "runYtDlpLowerQuality e config url tempDir w1")
  from late w1 have "notExitedBy (timerDelay (downloadTimeout config))
      (ytDlp e (length (spawned w1)) (runYtDlpLowerQuality_args url tempDir))"
    by simp
  from spawnAndAwait_deadline(1) [OF this, of tempDir] run
  have o2: "o2 = Returned (failure (js ''Download timeout''))"
    by (simp add: runYtDlpLowerQuality_def)
  from spawnAndAwait_fs [of e config "runYtDlpLowerQuality_args url tempDir" tempDir w1] run
  have there: "fs w2 tempDir \<noteq> None" by (simp add: runYtDlpLowerQuality_def)
  have d: "downloadLowerQuality e config url requestId w =
      (Returned (failure (js ''Download timeout'')), cleanupTempDir e tempDir w2)"
    unfolding downloadLowerQuality_def
    by (simp add: c run o2 failure_fields)
  from d show "fst (downloadLowerQuality e config url requestId w)
           = Returned (failure (js ''Download timeout''))"
    by simp
  from d show "fs (snd (downloadLowerQuality e config url requestId w)) tempDir = None"
    if "fsFault e (Remove tempDir) = None"
    using that by (simp add: cleanupTempDir_removed)
  from d there show "fs (snd (downloadLowerQuality e config url requestId w)) tempDir \<noteq> None"
    if "fsFault e (Remove tempDir) \<noteq> None"
    using cleanupTempDir_failed [OF that, of w2] by simp
qed

lemma timerDelay_in_range:
  "1 \<le> s * 1000 \<Longrightarrow> s * 1000 \<le> 2147483647 \<Longrightarrow> timerDelay (Num s) = nat (s * 1000)"
  by (simp add: timerDelay_def)

lemma timeout_within_range:
  assumes "downloadTimeout config = Num s" and "1 \<le> s * 1000" and "s * 1000 \<le> 2147483647"
  shows
  "(notExitedBy (nat (s * 1000)) (ytDlp e (length (spawned w)) args) \<longrightarrow>
      fst (spawnAndAwait e config args d w) = Returned (failure (js ''Download timeout'')) \<and>
      terminated (snd (spawnAndAwait e config args d w)) = terminated w @ [length (spawned w)]) \<and>
   (tempDir = join (TEMP_BASE_DIR e) (uuidv4 e (issued w)) \<and>
    fsFault e (EnsureDir tempDir) = None \<and>
    notExitedBy (nat (s * 1000))
      (ytDlp e (length (spawned w)) (runYtDlp_args url tempDir)) \<longrightarrow>
      fst (download e config url w) = Returned (failure (js ''Download timeout'')) \<and>
      (fs (snd (download e config url w)) tempDir = None \<longleftrightarrow>
         fsFault e (Remove tempDir) = None)) \<and>
   (tempDir = join (TEMP_BASE_DIR e) requestId \<and>
    fsFault e (EnsureDir tempDir) = None \<and>
    notExitedBy (nat (s * 1000))
      (ytDlp e (length (spawned w)) (runYtDlpLowerQuality_args url tempDir)) \<longrightarrow>
      fst (downloadLowerQuality e config url requestId w)
        = Returned (failure (js ''Download timeout'')) \<and>
      (fs (snd (downloadLowerQuality e config url requestId w)) tempDir = None \<longleftrightarrow>
         fsFault e (Remove tempDir) = None)) \<and>
   (exitedBefore (nat (s * 1000)) (ytDlp e (length (spawned w)) args) \<longrightarrow>
      \<not> timerArmed (runAttempt e d f (timerDelay (downloadTimeout config))
                       (ytDlp e (length (spawned w)) args)) \<and>
      (\<forall>es. timerRuns (foldl (onEvent e d f)
                 (runAttempt e d f (timerDelay (downloadTimeout config))
                    (ytDlp e (length (spawned w)) args)) es) = 0) \<and>
      terminated (snd (spawnAndAwait e config args d w)) = terminated w)"
proof (intro conjI impI allI)
  have delay: "nat (s * 1000) = timerDelay (downloadTimeout config)"
    using assms by (simp add: timerDelay_in_range)
  {
    assume "notExitedBy (nat (s * 1000)) (ytDlp e (length (spawned w)) args)"
    then have late:
      "notExitedBy (timerDelay (downloadTimeout config)) (ytDlp e (length (spawned w)) args)"
      unfolding delay .
    show "fst (spawnAndAwait e config args d w) = Returned (failure (js ''Download timeout''))"
      by (rule spawnAndAwait_deadline(1) [OF late])
    show "terminated (snd (spawnAndAwait e config args d w)) = terminated w @ [length (spawned w)]"
      by (rule spawnAndAwait_deadline(2) [OF late])
  }
  {
    assume a: "tempDir = join (TEMP_BASE_DIR e) (uuidv4 e (issued w)) \<and>
      fsFault e (EnsureDir tempDir) = None \<and>
      notExitedBy (nat (s * 1000))
        (ytDlp e (length (spawned w)) (runYtDlp_args url tempDir))"
    then have x: "tempDir = join (TEMP_BASE_DIR e) (uuidv4 e (issued w))"
      "fsFault e (EnsureDir tempDir) = None"
      "notExitedBy (timerDelay (downloadTimeout config))
        (ytDlp e (length (spawned w)) (runYtDlp_args url tempDir))"
      unfolding delay
      by (rule conjunct1, rule conjunct1 [OF conjunct2], rule conjunct2 [OF conjunct2])
    show "fst (download e config url w) = Returned (failure (js ''Download timeout''))"
      by (rule download_deadline(1) [OF x])
    show "fs (snd (download e config url w)) tempDir = None \<longleftrightarrow>
        fsFault e (Remove tempDir) = None"
      using download_deadline(2) [OF x] download_deadline(3) [OF x] by blast
  }
  {
    assume a: "tempDir = join (TEMP_BASE_DIR e) requestId \<and>
      fsFault e (EnsureDir tempDir) = None \<and>
      notExitedBy (nat (s * 1000))
        (ytDlp e (length (spawned w)) (runYtDlpLowerQuality_args url tempDir))"
    then have x: "tempDir = join (TEMP_BASE_DIR e) requestId"
      "fsFault e (EnsureDir tempDir) = None"
      "notExitedBy (timerDelay (downloadTimeout config))
        (ytDlp e (length (spawned w)) (runYtDlpLowerQuality_args url tempDir))"
      unfolding delay
      by (rule conjunct1, rule conjunct1 [OF conjunct2], rule conjunct2 [OF conjunct2])
    show "fst (downloadLowerQuality e config url requestId w)
          = Returned (failure (js ''Download timeout''))"
      by (rule downloadLowerQuality_deadline(1) [OF x])
    show "fs (snd (downloadLowerQuality e config url requestId w)) tempDir = None \<longleftrightarrow>
        fsFault e (Remove tempDir) = None"
      using downloadLowerQuality_deadline(2) [OF x] downloadLowerQuality_deadline(3) [OF x]
      by blast
  }
  {
    assume "exitedBefore (nat (s * 1000)) (ytDlp e (length (spawned w)) args)"
    then have early:
      "exitedBefore (timerDelay (downloadTimeout config)) (ytDlp e (length (spawned w)) args)"
      unfolding delay .
    note ex = runAttempt_exited [OF early, of e d f]
    from ex show "\<not> timerArmed (runAttempt e d f (timerDelay (downloadTimeout config))
                         (ytDlp e (length (spawned w)) args))" by simp
    show "terminated (snd (spawnAndAwait e config args d w)) = terminated w"
      by (rule spawnAndAwait_exited [OF early])
    fix es
    from ex disarmed_forever [of "runAttempt e d f (timerDelay (downloadTimeout config))
                         (ytDlp e (length (spawned w)) args)" e d f es]
    show "timerRuns (foldl (onEvent e d f)
                   (runAttempt e d f (timerDelay (downloadTimeout config))
                      (ytDlp e (length (spawned w)) args)) es) = 0" by simp
  }
qed


text \<open>
  C2 (as amended). Let the configured timeout be \<open>s\<close> seconds with \<open>1000 s\<close> between 1 and
  \<open>2^31 - 1\<close>. For every attempt (the first and the lower-quality one run the same
  promise): a child process that has not exited \<open>1000 s\<close> milliseconds after its start is
  sent SIGTERM and the attempt resolves to the failure \<open>Download timeout\<close>; \<open>download\<close>
  and \<open>downloadLowerQuality\<close> return that failure after trying to remove the workspace,
  which is gone when the removal does not throw and stays when it does (the error is
  logged and swallowed). A child that closes or fails to start earlier than that clears
  the timeout, whose callback then never runs, whatever events follow, and no SIGTERM is
  sent. For every other configured value (a product outside that range, NaN or an
  infinity) the timer is set to one millisecond. An unset timeout is 120 seconds.
\<close>

theorem timeout_terminates_and_timer_is_cleared:
  "(downloadTimeout config = Num s \<and> 1 \<le> s * 1000 \<and> s * 1000 \<le> 2147483647 \<longrightarrow>
      (notExitedBy (nat (s * 1000)) (ytDlp e (length (spawned w)) args) \<longrightarrow>
         fst (spawnAndAwait e config args d w) = Returned (failure (js ''Download timeout'')) \<and>
         terminated (snd (spawnAndAwait e config args d w)) = terminated w @ [length (spawned w)]) \<and>
      (tempDir = join (TEMP_BASE_DIR e) (uuidv4 e (issued w)) \<and>
       fsFault e (EnsureDir tempDir) = None \<and>
       notExitedBy (nat (s * 1000))
         (ytDlp e (length (spawned w)) (runYtDlp_args url tempDir)) \<longrightarrow>
         fst (download e config url w) = Returned (failure (js ''Download timeout'')) \<and>
         (fs (snd (download e config url w)) tempDir = None \<longleftrightarrow>
            fsFault e (Remove tempDir) = None)) \<and>
      (tempDir = join (TEMP_BASE_DIR e) requestId \<and>
       fsFault e (EnsureDir tempDir) = None \<and>
       notExitedBy (nat (s * 1000))
         (ytDlp e (length (spawned w)) (runYtDlpLowerQuality_args url tempDir)) \<longrightarrow>
         fst (downloadLowerQuality e config url requestId w)
           = Returned (failure (js ''Download timeout'')) \<and>
         (fs (snd (downloadLowerQuality e config url requestId w)) tempDir = None \<longleftrightarrow>
            fsFault e (Remove tempDir) = None)) \<and>
      (exitedBefore (nat (s * 1000)) (ytDlp e (length (spawned w)) args) \<longrightarrow>
         \<not> timerArmed (runAttempt e d f (timerDelay (downloadTimeout config))
                          (ytDlp e (length (spawned w)) args)) \<and>
         (\<forall>es. timerRuns (foldl (onEvent e d f)
                    (runAttempt e d f (timerDelay (downloadTimeout config))
                       (ytDlp e (length (spawned w)) args)) es) = 0) \<and>
         terminated (snd (spawnAndAwait e config args d w)) = terminated w)) \<and>
   ((\<forall>n. downloadTimeout config = Num n \<longrightarrow> n * 1000 < 1 \<or> 2147483647 < n * 1000) \<longrightarrow>
      timerDelay (downloadTimeout config) = 1) \<and>
   downloadTimeout (loadConfig None size_mb) = Num 120"
proof (intro conjI)
  show "downloadTimeout config = Num s \<and> 1 \<le> s * 1000 \<and> s * 1000 \<le> 2147483647 \<longrightarrow>
      (notExitedBy (nat (s * 1000)) (ytDlp e (length (spawned w)) args) \<longrightarrow>
         fst (spawnAndAwait e config args d w) = Returned (failure (js ''Download timeout'')) \<and>
         terminated (snd (spawnAndAwait e config args d w)) = terminated w @ [length (spawned w)]) \<and>
      (tempDir = join (TEMP_BASE_DIR e) (uuidv4 e (issued w)) \<and>
       fsFault e (EnsureDir tempDir) = None \<and>
       notExitedBy (nat (s * 1000))
         (ytDlp e (length (spawned w)) (runYtDlp_args url tempDir)) \<longrightarrow>
         fst (download e config url w) = Returned (failure (js ''Download timeout'')) \<and>
         (fs (snd (download e config url w)) tempDir = None \<longleftrightarrow>
            fsFault e (Remove tempDir) = None)) \<and>
      (tempDir = join (TEMP_BASE_DIR e) requestId \<and>
       fsFault e (EnsureDir tempDir) = None \<and>
       notExitedBy (nat (s * 1000))
         (ytDlp e (length (spawned w)) (runYtDlpLowerQuality_args url tempDir)) \<longrightarrow>
         fst (downloadLowerQuality e config url requestId w)
           = Returned (failure (js ''Download timeout'')) \<and>
         (fs (snd (downloadLowerQuality e config url requestId w)) tempDir = None \<longleftrightarrow>
            fsFault e (Remove tempDir) = None)) \<and>
      (exitedBefore (nat (s * 1000)) (ytDlp e (length (spawned w)) args) \<longrightarrow>
         \<not> timerArmed (runAttempt e d f (timerDelay (downloadTimeout config))
                          (ytDlp e (length (spawned w)) args)) \<and>
         (\<forall>es. timerRuns (foldl (onEvent e d f)
                    (runAttempt e d f (timerDelay (downloadTimeout config))
                       (ytDlp e (length (spawned w)) args)) es) = 0) \<and>
         terminated (snd (spawnAndAwait e config args d w)) = terminated w)"
  proof
    assume r: "downloadTimeout config = Num s \<and> 1 \<le> s * 1000 \<and> s * 1000 \<le> 2147483647"
    then have "downloadTimeout config = Num s" "1 \<le> s * 1000" "s * 1000 \<le> 2147483647"
      by simp_all
    then show "(notExitedBy (nat (s * 1000)) (ytDlp e (length (spawned w)) args) \<longrightarrow>
         fst (spawnAndAwait e config args d w) = Returned (failure (js ''Download timeout'')) \<and>
         terminated (snd (spawnAndAwait e config args d w)) = terminated w @ [length (spawned w)]) \<and>
      (tempDir = join (TEMP_BASE_DIR e) (uuidv4 e (issued w)) \<and>
       fsFault e (EnsureDir tempDir) = None \<and>
       notExitedBy (nat (s * 1000))
         (ytDlp e (length (spawned w)) (runYtDlp_args url tempDir)) \<longrightarrow>
         fst (download e config url w) = Returned (failure (js ''Download timeout'')) \<and>
         (fs (snd (download e config url w)) tempDir = None \<longleftrightarrow>
            fsFault e (Remove tempDir) = None)) \<and>
      (tempDir = join (TEMP_BASE_DIR e) requestId \<and>
       fsFault e (EnsureDir tempDir) = None \<and>
       notExitedBy (nat (s * 1000))
         (ytDlp e (length (spawned w)) (runYtDlpLowerQuality_args url tempDir)) \<longrightarrow>
         fst (downloadLowerQuality e config url requestId w)
           = Returned (failure (js ''Download timeout'')) \<and>
         (fs (snd (downloadLowerQuality e config url requestId w)) tempDir = None \<longleftrightarrow>
            fsFault e (Remove tempDir) = None)) \<and>
      (exitedBefore (nat (s * 1000)) (ytDlp e (length (spawned w)) args) \<longrightarrow>
         \<not> timerArmed (runAttempt e d f (timerDelay (downloadTimeout config))
                          (ytDlp e (length (spawned w)) args)) \<and>
         (\<forall>es. timerRuns (foldl (onEvent e d f)
                    (runAttempt e d f (timerDelay (downloadTimeout config))
                       (ytDlp e (length (spawned w)) args)) es) = 0) \<and>
         terminated (snd (spawnAndAwait e config args d w)) = terminated w)"
      by (rule timeout_within_range)
  qed
  show "(\<forall>n. downloadTimeout config = Num n \<longrightarrow> n * 1000 < 1 \<or> 2147483647 < n * 1000) \<longrightarrow>
      timerDelay (downloadTimeout config) = 1"
    by (cases "downloadTimeout config") (auto simp: timerDelay_def)
  show "downloadTimeout (loadConfig None size_mb) = Num 120"
    by (simp add: loadConfig_def orDefault_def parseInt_def js_def isWhiteSpace_def isDigit_def
          decimalValue_def toNumber_def roundToDouble_def)
qed


lemma downloadLowerQuality_unfold:
  assumes dir: "tempDir = join (TEMP_BASE_DIR e) requestId"
    and ok: "fsFault e (EnsureDir tempDir) = None"
    and w1: "w1 = snd (createTempDir e requestId w)"
    and run: "runYtDlpLowerQuality e config url tempDir w1 = (Returned result2, w2)"
  shows "downloadLowerQuality e config url requestId w =
     (if \<not> success result2 then (Returned result2, cleanupTempDir e tempDir w2)
      else (case statResult e w2 result2 of
              Inl msg \<Rightarrow> (Returned (failure msg), cleanupTempDir e tempDir w2)
            | Inr (p, bytes) \<Rightarrow>
                (Returned \<lparr>success = True, filePath = Some p, title = title result2,
                            error = None, fileSize = Some bytes\<rparr>, w2)))"
proof -
  have c: "createTempDir e requestId w = (Returned tempDir, w1)"
    using ok dir w1 by (simp add: createTempDir_cases)
  show ?thesis
    unfolding downloadLowerQuality_def by (simp add: c run)
qed

lemma spawnAndAwait_Returned:
  "\<exists>r w'. spawnAndAwait e config args d w = (Returned r, w')"
  using runAttempt_settles
  by (auto simp: spawnAndAwait_def Let_def split: option.splits)

lemma runYtDlpLowerQuality_Returned:
  "\<exists>result2 w2. runYtDlpLowerQuality e config url d w = (Returned result2, w2)"
  unfolding runYtDlpLowerQuality_def by (rule spawnAndAwait_Returned)

lemma downloadLowerQuality_created:
  assumes dir: "tempDir = join (TEMP_BASE_DIR e) requestId"
    and ok: "fsFault e (EnsureDir tempDir) = None"
  shows "(\<exists>r. fst (downloadLowerQuality e config url requestId w) = Returned r) \<and>
         spawned (snd (downloadLowerQuality e config url requestId w))
           = spawned w @ [runYtDlpLowerQuality_args url tempDir]"
proof -
  define w1 where "w1 = snd (createTempDir e requestId w)"
  obtain result2 w2 where run: "runYtDlpLowerQuality e config url tempDir w1 = (Returned result2, w2)"
    using runYtDlpLowerQuality_Returned by blast
  have sp: "spawned w2 = spawned w @ [runYtDlpLowerQuality_args url tempDir]"
    using run spawnAndAwait_world(3) [of e config "runYtDlpLowerQuality_args url tempDir" tempDir w1]
    by (simp add: runYtDlpLowerQuality_def w1_def createTempDir_world)
  show ?thesis
    unfolding downloadLowerQuality_unfold [OF dir ok w1_def run]
    by (simp add: sp cleanupTempDir_world split: sum.splits prod.splits)
qed

text \<open>
  C1. When the first attempt succeeds and its file is larger than the configured
  maximum, \<open>download\<close> is exactly the lower-quality download on the cleaned-up
  workspace: two processes are spawned in all, the second with the height-capped
  arguments, and what the second attempt yields is returned as it is, a failure, a
  failure of \<open>stat\<close>, or a success of any size; the size is not compared with the limit
  again and there is no third attempt.
\<close>

theorem oversize_first_attempt_retries_once:
  assumes dir: "tempDir = join (TEMP_BASE_DIR e) (uuidv4 e (issued w))"
    and ok: "fsFault e (EnsureDir tempDir) = None"
    and w1: "w1 = snd (createTempDir e (uuidv4 e (issued w)) (w\<lparr>issued := Suc (issued w)\<rparr>))"
    and first: "runYtDlp e config url tempDir w1 = (Returned result, w2)" "success result"
    and size: "statResult e w2 result = Inr (p, bytes)" "tooLarge config bytes"
    and w3: "w3 = snd (createTempDir e (uuidv4 e (issued w)) (cleanupTempDir e tempDir w2))"
    and second: "runYtDlpLowerQuality e config url tempDir w3 = (Returned result2, w4)"
  shows "download e config url w =
           downloadLowerQuality e config url (uuidv4 e (issued w)) (cleanupTempDir e tempDir w2) \<and>
         spawned (snd (download e config url w)) =
           spawned w @ [runYtDlp_args url tempDir, runYtDlpLowerQuality_args url tempDir] \<and>
         runYtDlpLowerQuality_args url tempDir ! 3 =
           (if str_includes url (js ''instagram.com'') then
              js ''bestvideo[height<=480][ext=mp4]+bestaudio[ext=m4a]/best[height<=480][ext=mp4]/best''
            else js ''bestvideo[height<=480]+bestaudio/best[height<=480]/best'') \<and>
         (\<not> success result2 \<longrightarrow> fst (download e config url w) = Returned result2) \<and>
         (\<forall>msg. success result2 \<and> statResult e w4 result2 = Inl msg \<longrightarrow>
            fst (download e config url w) = Returned (failure msg)) \<and>
         (\<forall>p2 bytes2. success result2 \<and> statResult e w4 result2 = Inr (p2, bytes2) \<longrightarrow>
            download e config url w =
              (Returned \<lparr>success = True, filePath = Some p2, title = title result2,
                          error = None, fileSize = Some bytes2\<rparr>, w4))"
proof -
  define requestId where "requestId = uuidv4 e (issued w)"
  define low where "low = downloadLowerQuality e config url requestId (cleanupTempDir e tempDir w2)"
  have c: "createTempDir e requestId (w\<lparr>issued := Suc (issued w)\<rparr>) = (Returned tempDir, w1)"
    using ok dir w1 by (simp add: createTempDir_cases requestId_def)
  have dir': "tempDir = join (TEMP_BASE_DIR e) requestId"
    using dir by (simp add: requestId_def)
  from downloadLowerQuality_created [OF dir' ok, of config url "cleanupTempDir e tempDir w2"]
  obtain r where low_r: "fst low = Returned r"
    and low_sp: "spawned (snd low) = spawned w2 @ [runYtDlpLowerQuality_args url tempDir]"
    by (auto simp: low_def cleanupTempDir_world)
  have "download e config url w =
      (case low of (Thrown msg, w3) \<Rightarrow> (Returned (failure msg), cleanupTempDir e tempDir w3)
       | other \<Rightarrow> other)"
    using c first size unfolding download_def Let_def low_def requestId_def by simp
  with low_r have eq: "download e config url w = low"
    by (cases low) simp
  have sp2: "spawned w2 = spawned w @ [runYtDlp_args url tempDir]"
    using first(1) spawnAndAwait_world(3) [of e config "runYtDlp_args url tempDir" tempDir w1]
    by (simp add: runYtDlp_def w1 createTempDir_world)
  have low_eq: "low =
     (if \<not> success result2 then (Returned result2, cleanupTempDir e tempDir w4)
      else (case statResult e w4 result2 of
              Inl msg \<Rightarrow> (Returned (failure msg), cleanupTempDir e tempDir w4)
            | Inr (p, bytes) \<Rightarrow>
                (Returned \<lparr>success = True, filePath = Some p, title = title result2,
                            error = None, fileSize = Some bytes\<rparr>, w4)))"
    unfolding low_def
    by (rule downloadLowerQuality_unfold [OF dir' ok w3 [folded requestId_def] second])
  show ?thesis
  proof (intro conjI allI impI)
    show "download e config url w =
           downloadLowerQuality e config url (uuidv4 e (issued w)) (cleanupTempDir e tempDir w2)"
      using eq by (simp add: low_def requestId_def)
    show "spawned (snd (download e config url w)) =
           spawned w @ [runYtDlp_args url tempDir, runYtDlpLowerQuality_args url tempDir]"
      using eq low_sp sp2 by simp
    show "runYtDlpLowerQuality_args url tempDir ! 3 =
           (if str_includes url (js ''instagram.com'') then
              js ''bestvideo[height<=480][ext=mp4]+bestaudio[ext=m4a]/best[height<=480][ext=mp4]/best''
            else js ''bestvideo[height<=480]+bestaudio/best[height<=480]/best'')"
      by (simp add: runYtDlpLowerQuality_args_def Let_def)
    show "fst (download e config url w) = Returned result2" if "\<not> success result2"
      using that eq low_eq by simp
    show "fst (download e config url w) = Returned (failure msg)"
      if "success result2 \<and> statResult e w4 result2 = Inl msg" for msg
      using that eq low_eq by simp
    show "download e config url w =
              (Returned \<lparr>success = True, filePath = Some p2, title = title result2,
                          error = None, fileSize = Some bytes2\<rparr>, w4)"
      if "success result2 \<and> statResult e w4 result2 = Inr (p2, bytes2)" for p2 bytes2
      using that eq low_eq by simp
  qed
qed


section \<open>Concrete runs of the downloader\<close>

lemmas model_eval =
  download_def downloadLowerQuality_def createTempDir_def cleanupTempDir_def fs_remove_def
  runYtDlp_def runYtDlpLowerQuality_def spawnAndAwait_def runAttempt_def schedule_def
  newAttempt_def onEvent_def resolve_def readdir_def stat_def statResult_def tooLarge_def
  timerDelay_def isVideoFile_def endsWith_def basename_def extname_def join_def dirname_def
  filename_def failure_def Let_def
  demoEnv_def noFault_def startWorld_def defaultConfig_def loadConfig_def orDefault_def
  parseInt_def toNumber_def roundToDouble_def isWhiteSpace_def isDigit_def decimalValue_def
  parseYtDlpError_def lowerSample_def lowerUnit_def
  clip_def clipWithThumbnail_def bigClip_def hung_def refused_def
  runYtDlp_args_def runYtDlpLowerQuality_args_def js_def

theorem timeout_terminates_and_timer_is_cleared_witness:
  "downloadTimeout defaultConfig = Num 120 \<and>
   notExitedBy (nat (120 * 1000)) hung \<and>
   exitedBefore (nat (120 * 1000)) refused \<and>
   fst (download (demoEnv (\<lambda>k. hung) noFault) defaultConfig (js ''https://a.io/x'') startWorld)
     = Returned (failure (js ''Download timeout'')) \<and>
   fs (snd (download (demoEnv (\<lambda>k. hung) noFault) defaultConfig (js ''https://a.io/x'') startWorld))
     (js ''/app/temp/req0'') = None \<and>
   terminated (snd (spawnAndAwait (demoEnv (\<lambda>k. hung) noFault) defaultConfig [] (js ''/app/temp/req0'')
     startWorld)) = [0] \<and>
   fst (downloadLowerQuality (demoEnv (\<lambda>k. hung) noFault) defaultConfig (js ''https://a.io/x'')
     (js ''req0'') startWorld) = Returned (failure (js ''Download timeout'')) \<and>
   fs (snd (downloadLowerQuality (demoEnv (\<lambda>k. hung) noFault) defaultConfig
     (js ''https://a.io/x'') (js ''req0'') startWorld)) (js ''/app/temp/req0'') = None \<and>
   (\<forall>es. timerRuns (foldl (onEvent (demoEnv (\<lambda>k. refused) noFault) (js ''/app/temp/req0'') Map.empty)
      (runAttempt (demoEnv (\<lambda>k. refused) noFault) (js ''/app/temp/req0'') Map.empty
         (timerDelay (downloadTimeout defaultConfig)) refused) es) = 0) \<and>
   terminated (snd (spawnAndAwait (demoEnv (\<lambda>k. refused) noFault) defaultConfig []
     (js ''/app/temp/req0'') startWorld)) = [] \<and>
   timerDelay (downloadTimeout (loadConfig (Some (js ''0'')) None)) = 1"
proof -
  have cfg: "downloadTimeout defaultConfig = Num 120"
    by (simp add: model_eval)
  have lo: "1 \<le> (120::int) * 1000" and hi: "(120::int) * 1000 \<le> 2147483647"
    by simp_all
  have late: "notExitedBy (nat (120 * 1000)) hung"
    by (simp add: notExitedBy_def hung_def)
  have early: "exitedBefore (nat (120 * 1000)) refused"
    by (simp add: exitedBefore_def refused_def)
  have dir: "js ''/app/temp/req0'' =
      join (TEMP_BASE_DIR (demoEnv (\<lambda>k. hung) noFault))
        (uuidv4 (demoEnv (\<lambda>k. hung) noFault) (issued startWorld))"
    by (simp add: model_eval)
  have ok: "fsFault (demoEnv (\<lambda>k. hung) noFault) c = None" for c
    by (simp add: demoEnv_def)
  have p1: "ytDlp (demoEnv (\<lambda>k. hung) noFault) k args = hung" for k args
    by (simp add: demoEnv_def)
  have p2: "ytDlp (demoEnv (\<lambda>k. refused) noFault) k args = refused" for k args
    by (simp add: demoEnv_def)
  have t0: "terminated startWorld = []" "length (spawned startWorld) = 0"
    by (simp_all add: startWorld_def)
  have late': "notExitedBy (nat (120 * 1000))
      (ytDlp (demoEnv (\<lambda>k. hung) noFault) (length (spawned startWorld)) args)" for args
    using late by (simp only: p1)
  have early': "exitedBefore (nat (120 * 1000))
      (ytDlp (demoEnv (\<lambda>k. refused) noFault) (length (spawned startWorld)) args)" for args
    using early by (simp only: p2)
  note T1 = timeout_terminates_and_timer_is_cleared
    [where config = defaultConfig and s = 120 and e = "demoEnv (\<lambda>k. hung) noFault"
       and w = startWorld
       and args = "[]" and d = "js ''/app/temp/req0''" and tempDir = "js ''/app/temp/req0''"
       and url = "js ''https://a.io/x''" and requestId = "js ''req0''" and f = Map.empty
       and size_mb = None, THEN conjunct1, THEN mp, OF conjI [OF cfg conjI [OF lo hi]]]
  note T2 = timeout_terminates_and_timer_is_cleared
    [where config = defaultConfig and s = 120 and e = "demoEnv (\<lambda>k. refused) noFault"
       and w = startWorld
       and args = "[]" and d = "js ''/app/temp/req0''" and tempDir = "js ''/app/temp/req0''"
       and url = "js ''https://a.io/x''" and requestId = "[]" and f = Map.empty
       and size_mb = None, THEN conjunct1, THEN mp, OF conjI [OF cfg conjI [OF lo hi]]]
  note a1 = T1 [THEN conjunct1, THEN mp, OF late']
  note a2 = T1 [THEN conjunct2, THEN conjunct1, THEN mp, OF conjI [OF dir conjI [OF ok late']]]
  have dir2: "js ''/app/temp/req0'' =
      join (TEMP_BASE_DIR (demoEnv (\<lambda>k. hung) noFault)) (js ''req0'')"
    by (simp add: model_eval)
  note a3 = T1 [THEN conjunct2, THEN conjunct2, THEN conjunct1, THEN mp,
      OF conjI [OF dir2 conjI [OF ok late']]]
  note b1 = T2 [THEN conjunct2, THEN conjunct2, THEN conjunct2, THEN mp, OF early']
  have zero: "downloadTimeout (loadConfig (Some (js ''0'')) None) = Num 0"
    by (simp add: model_eval)
  have c1: "timerDelay (downloadTimeout (loadConfig (Some (js ''0'')) None)) = 1"
    using timeout_terminates_and_timer_is_cleared
      [where config = "loadConfig (Some (js ''0'')) None", THEN conjunct2, THEN conjunct1]
    by (simp add: zero)
  from a1 have a1': "terminated (snd (spawnAndAwait (demoEnv (\<lambda>k. hung) noFault) defaultConfig []
     (js ''/app/temp/req0'') startWorld)) = [0]"
    by (simp add: t0)
  from a2 have a2': "fst (download (demoEnv (\<lambda>k. hung) noFault) defaultConfig
        (js ''https://a.io/x'') startWorld) = Returned (failure (js ''Download timeout'')) \<and>
      fs (snd (download (demoEnv (\<lambda>k. hung) noFault) defaultConfig (js ''https://a.io/x'')
        startWorld)) (js ''/app/temp/req0'') = None"
    by (simp add: ok)
  from a3 have a3': "fst (downloadLowerQuality (demoEnv (\<lambda>k. hung) noFault) defaultConfig
        (js ''https://a.io/x'') (js ''req0'') startWorld)
        = Returned (failure (js ''Download timeout'')) \<and>
      fs (snd (downloadLowerQuality (demoEnv (\<lambda>k. hung) noFault) defaultConfig
        (js ''https://a.io/x'') (js ''req0'') startWorld)) (js ''/app/temp/req0'') = None"
    by (simp add: ok)
  from b1 have b1': "(\<forall>es. timerRuns (foldl (onEvent (demoEnv (\<lambda>k. refused) noFault) (js ''/app/temp/req0'') Map.empty)
      (runAttempt (demoEnv (\<lambda>k. refused) noFault) (js ''/app/temp/req0'') Map.empty
         (timerDelay (downloadTimeout defaultConfig)) refused) es) = 0) \<and>
   terminated (snd (spawnAndAwait (demoEnv (\<lambda>k. refused) noFault) defaultConfig []
     (js ''/app/temp/req0'') startWorld)) = []"
    by (simp add: t0 p2)
  from cfg late early a2' a1' a3' b1' c1 show ?thesis by blast
qed

text \<open>
  C2 as stated fails in two ways. A configured timeout of 3000000 seconds is more than
  \<open>2^31 - 1\<close> milliseconds, so the timer is set to one millisecond: a child that exits
  with code 0 after three seconds, long before the configured timeout, is sent SIGTERM and
  the download is reported as timed out. And when removing the workspace of a timed-out
  attempt throws, the failure is returned all the same and the workspace stays.
\<close>

theorem timeout_out_of_range_counterexample:
  "downloadTimeout (loadConfig (Some (js ''3000000'')) None) = Num 3000000 \<and>
   exitedBefore (nat (3000000 * 1000)) clip \<and>
   timerDelay (downloadTimeout (loadConfig (Some (js ''3000000'')) None)) = 1 \<and>
   fst (download (demoEnv (\<lambda>k. clip) noFault) (loadConfig (Some (js ''3000000'')) None)
      (js ''https://a.io/x'') startWorld) = Returned (failure (js ''Download timeout'')) \<and>
   terminated (snd (download (demoEnv (\<lambda>k. clip) noFault)
      (loadConfig (Some (js ''3000000'')) None) (js ''https://a.io/x'') startWorld)) = [0] \<and>
   fst (download ((demoEnv (\<lambda>k. hung) noFault)\<lparr>fsFault := removeFails\<rparr>) defaultConfig
      (js ''https://a.io/x'') startWorld) = Returned (failure (js ''Download timeout'')) \<and>
   fs (snd (download ((demoEnv (\<lambda>k. hung) noFault)\<lparr>fsFault := removeFails\<rparr>) defaultConfig
      (js ''https://a.io/x'') startWorld)) (js ''/app/temp/req0'')
     = Some [(js ''My Clip.mp4.part'', 100)]"
proof (intro conjI)
  show "downloadTimeout (loadConfig (Some (js ''3000000'')) None) = Num 3000000"
    by (simp add: model_eval)
  show "exitedBefore (nat (3000000 * 1000)) clip"
    by (simp add: exitedBefore_def clip_def)
  show "timerDelay (downloadTimeout (loadConfig (Some (js ''3000000'')) None)) = 1"
    by (simp add: model_eval)
  show "fst (download (demoEnv (\<lambda>k. clip) noFault) (loadConfig (Some (js ''3000000'')) None)
      (js ''https://a.io/x'') startWorld) = Returned (failure (js ''Download timeout''))"
    by (simp add: model_eval)
  show "terminated (snd (download (demoEnv (\<lambda>k. clip) noFault)
      (loadConfig (Some (js ''3000000'')) None) (js ''https://a.io/x'') startWorld)) = [0]"
    by (simp add: model_eval)
  show "fst (download ((demoEnv (\<lambda>k. hung) noFault)\<lparr>fsFault := removeFails\<rparr>) defaultConfig
      (js ''https://a.io/x'') startWorld) = Returned (failure (js ''Download timeout''))"
    by (simp add: model_eval removeFails_def)
  show "fs (snd (download ((demoEnv (\<lambda>k. hung) noFault)\<lparr>fsFault := removeFails\<rparr>) defaultConfig
      (js ''https://a.io/x'') startWorld)) (js ''/app/temp/req0'')
     = Some [(js ''My Clip.mp4.part'', 100)]"
    by (simp add: model_eval removeFails_def)
qed


theorem oversize_first_attempt_retries_once_witness:
  "tooLarge defaultConfig 62914560 \<and>
   spawned (snd (download (demoEnv (\<lambda>k. bigClip) noFault) defaultConfig (js ''https://a.io/x'')
      startWorld))
     = [runYtDlp_args (js ''https://a.io/x'') (js ''/app/temp/req0''),
        runYtDlpLowerQuality_args (js ''https://a.io/x'') (js ''/app/temp/req0'')] \<and>
   fst (download (demoEnv (\<lambda>k. bigClip) noFault) defaultConfig (js ''https://a.io/x'') startWorld)
     = Returned \<lparr>success = True, filePath = Some (js ''/app/temp/req0/Big.mp4''),
         title = Some (js ''Big''), error = None, fileSize = Some 62914560\<rparr>"
proof -
  define e where "e = demoEnv (\<lambda>k. bigClip) noFault"
  define url where "url = js ''https://a.io/x''"
  define tempDir where "tempDir = js ''/app/temp/req0''"
  define w1 where "w1 = snd (createTempDir e (uuidv4 e (issued startWorld))
      (startWorld\<lparr>issued := Suc (issued startWorld)\<rparr>))"
  have dir: "tempDir = join (TEMP_BASE_DIR e) (uuidv4 e (issued startWorld))"
    by (simp add: tempDir_def e_def model_eval)
  have ok: "fsFault e (EnsureDir tempDir) = None"
    by (simp add: e_def demoEnv_def)
  have big: "tooLarge defaultConfig 62914560"
    by (simp add: model_eval)
  obtain result w2 where first: "runYtDlp e defaultConfig url tempDir w1 = (Returned result, w2)"
    and ok1: "success result"
    and st1: "statResult e w2 result = Inr (js ''/app/temp/req0/Big.mp4'', 62914560)"
    by (simp add: w1_def e_def url_def tempDir_def model_eval)
  define w3 where "w3 = snd (createTempDir e (uuidv4 e (issued startWorld))
      (cleanupTempDir e tempDir w2))"
  obtain result2 w4 where second:
      "runYtDlpLowerQuality e defaultConfig url tempDir w3 = (Returned result2, w4)"
    using runYtDlpLowerQuality_Returned by blast
  have fields: "success result2 \<and> title result2 = Some (js ''Big'') \<and>
      statResult e w4 result2 = Inr (js ''/app/temp/req0/Big.mp4'', 62914560)"
    using second first
    by (simp add: w3_def w1_def e_def url_def tempDir_def model_eval)
       (auto simp: model_eval)
  note T = oversize_first_attempt_retries_once
    [OF dir ok w1_def first ok1 st1 big w3_def second]
  from T have sp: "spawned (snd (download e defaultConfig url startWorld)) =
      spawned startWorld @ [runYtDlp_args url tempDir, runYtDlpLowerQuality_args url tempDir]"
    by (rule conjunct1 [OF conjunct2])
  from T fields have "download e defaultConfig url startWorld =
      (Returned \<lparr>success = True, filePath = Some (js ''/app/temp/req0/Big.mp4''),
          title = title result2, error = None, fileSize = Some 62914560\<rparr>, w4)"
    by blast
  with fields have r: "fst (download e defaultConfig url startWorld) =
      Returned \<lparr>success = True, filePath = Some (js ''/app/temp/req0/Big.mp4''),
          title = Some (js ''Big''), error = None, fileSize = Some 62914560\<rparr>"
    by simp
  from big sp r show ?thesis
    by (simp add: e_def url_def tempDir_def startWorld_def)
qed


section \<open>Delivery and the workspace\<close>

lemmas bot_eval =
  processUrl_def sendVideo_def telegram_def buildCaption_def replaceAll_def textMessage_def

text \<open>
  C3 fails on the code. After a successful delivery \<open>sendVideo\<close> hands the path of the
  video file, not the workspace, to \<open>cleanupTempDir\<close>: the file goes, the workspace
  directory stays, with whatever else the tool left in it. A failed download, in
  contrast, removes the directory.
\<close>

theorem workspace_survives_delivery:
  "fst (processUrl (demoEnv (\<lambda>k. clip) noFault) defaultConfig (textMessage 7 (js ''https://a.io/x''))
      (js ''https://a.io/x'') startWorld) = Returned () \<and>
   sent (snd (processUrl (demoEnv (\<lambda>k. clip) noFault) defaultConfig
      (textMessage 7 (js ''https://a.io/x'')) (js ''https://a.io/x'') startWorld))
     = [Reply Downloading, EditStatus DownloadComplete,
        ReplyWithVideo (js ''/app/temp/req0/My Clip.mp4'')
          (buildCaption (js ''https://a.io/x'') (Some (js ''My Clip''))),
        DeleteStatus] \<and>
   fs (snd (processUrl (demoEnv (\<lambda>k. clip) noFault) defaultConfig
      (textMessage 7 (js ''https://a.io/x'')) (js ''https://a.io/x'') startWorld))
     (js ''/app/temp/req0'') = Some [] \<and>
   fs (snd (processUrl (demoEnv (\<lambda>k. clipWithThumbnail) noFault) defaultConfig
      (textMessage 7 (js ''https://a.io/x'')) (js ''https://a.io/x'') startWorld))
     (js ''/app/temp/req0'') = Some [(js ''My Clip.jpg'', 2000)] \<and>
   fs (snd (processUrl (demoEnv (\<lambda>k. refused) noFault) defaultConfig
      (textMessage 7 (js ''https://a.io/x'')) (js ''https://a.io/x'') startWorld))
     (js ''/app/temp/req0'') = None"
proof (intro conjI)
  show "fst (processUrl (demoEnv (\<lambda>k. clip) noFault) defaultConfig (textMessage 7 (js ''https://a.io/x''))
      (js ''https://a.io/x'') startWorld) = Returned ()"
    by (simp add: bot_eval model_eval)
  show "sent (snd (processUrl (demoEnv (\<lambda>k. clip) noFault) defaultConfig
      (textMessage 7 (js ''https://a.io/x'')) (js ''https://a.io/x'') startWorld))
     = [Reply Downloading, EditStatus DownloadComplete,
        ReplyWithVideo (js ''/app/temp/req0/My Clip.mp4'')
          (buildCaption (js ''https://a.io/x'') (Some (js ''My Clip''))),
        DeleteStatus]"
    by (simp add: bot_eval model_eval)
  show "fs (snd (processUrl (demoEnv (\<lambda>k. clip) noFault) defaultConfig
      (textMessage 7 (js ''https://a.io/x'')) (js ''https://a.io/x'') startWorld))
     (js ''/app/temp/req0'') = Some []"
    by (simp add: bot_eval model_eval)
  show "fs (snd (processUrl (demoEnv (\<lambda>k. clipWithThumbnail) noFault) defaultConfig
      (textMessage 7 (js ''https://a.io/x'')) (js ''https://a.io/x'') startWorld))
     (js ''/app/temp/req0'') = Some [(js ''My Clip.jpg'', 2000)]"
    by (simp add: bot_eval model_eval)
  show "fs (snd (processUrl (demoEnv (\<lambda>k. refused) noFault) defaultConfig
      (textMessage 7 (js ''https://a.io/x'')) (js ''https://a.io/x'') startWorld))
     (js ''/app/temp/req0'') = None"
    by (simp add: bot_eval model_eval)
qed

section \<open>The message handler\<close>

lemma onMessage_unfold:
  assumes "from_id ctx = Some userId" "userId \<noteq> 0" "message_text ctx = Some txt" "txt \<noteq> []"
    and "isAllowed ac (Num userId)"
  shows "onMessage e config ac now later ctx w =
     (if \<exists>s. userSessions w userId = Some s \<and> isProcessing s then
        telegram e (Reply WaitForCurrent) w
      else if \<exists>s. userSessions w userId = Some s \<and> now - lastRequestTime s < cooldownMs then
        telegram e (Reply WaitAFewSeconds) w
      else if extractUrls txt = [] then telegram e (Reply SendValidUrl) w
      else
        (case processAll e config ctx (extractUrls txt)
                (w\<lparr>userSessions := (userSessions w)
                     (userId \<mapsto> \<lparr>isProcessing = True, lastRequestTime = now\<rparr>)\<rparr>) of
           (r, w') \<Rightarrow>
             (r, w'\<lparr>userSessions := (userSessions w')
                     (userId \<mapsto> \<lparr>isProcessing = False, lastRequestTime = later\<rparr>)\<rparr>)))"
proof -
  obtain r w' where p: "processAll e config ctx (extractUrls txt)
                (w\<lparr>userSessions := (userSessions w)
                     (userId \<mapsto> \<lparr>isProcessing = True, lastRequestTime = now\<rparr>)\<rparr>) = (r, w')"
    by (cases "processAll e config ctx (extractUrls txt)
                (w\<lparr>userSessions := (userSessions w)
                     (userId \<mapsto> \<lparr>isProcessing = True, lastRequestTime = now\<rparr>)\<rparr>)")
  with processAll_props [of e config ctx "extractUrls txt"
      "w\<lparr>userSessions := (userSessions w)
                     (userId \<mapsto> \<lparr>isProcessing = True, lastRequestTime = now\<rparr>)\<rparr>"]
  have np: "r \<noteq> Pending" by simp
  show ?thesis
    using assms np unfolding onMessage_def Let_def
    by (cases r) (auto simp: p split: option.splits)
qed

lemma mayProceed_branches:
  assumes "mayProceed w userId now"
  shows "\<not> (\<exists>s. userSessions w userId = Some s \<and> isProcessing s)"
    and "\<not> (\<exists>s. userSessions w userId = Some s \<and> now - lastRequestTime s < cooldownMs)"
  using assms by (auto simp: mayProceed_def split: option.splits)

lemma onMessage_accepted:
  assumes auth: "from_id ctx = Some userId" "userId \<noteq> 0" "message_text ctx = Some txt" "txt \<noteq> []"
      "isAllowed ac (Num userId)"
    and free: "mayProceed w userId now" and urls: "extractUrls txt \<noteq> []"
  shows "\<exists>r w'. processAll e config ctx (extractUrls txt) (accepting userId now w) = (r, w') \<and>
           r \<noteq> Pending \<and>
           userSessions w' userId = Some \<lparr>isProcessing = True, lastRequestTime = now\<rparr> \<and>
           onMessage e config ac now later ctx w =
             (r, w'\<lparr>userSessions := (userSessions w')
                     (userId \<mapsto> \<lparr>isProcessing = False, lastRequestTime = later\<rparr>)\<rparr>)"
proof -
  obtain r w' where p: "processAll e config ctx (extractUrls txt) (accepting userId now w) = (r, w')"
    by (cases "processAll e config ctx (extractUrls txt) (accepting userId now w)")
  from processAll_props [of e config ctx "extractUrls txt" "accepting userId now w"] p
  have np: "r \<noteq> Pending" and us: "userSessions w' = userSessions (accepting userId now w)"
    by simp_all
  from us have flag: "userSessions w' userId = Some \<lparr>isProcessing = True, lastRequestTime = now\<rparr>"
    by (simp add: accepting_def)
  have "onMessage e config ac now later ctx w =
      (r, w'\<lparr>userSessions := (userSessions w')
              (userId \<mapsto> \<lparr>isProcessing = False, lastRequestTime = later\<rparr>)\<rparr>)"
  proof -
    have n: "(\<exists>s. userSessions w userId = Some s \<and> isProcessing s) = False"
      "(\<exists>s. userSessions w userId = Some s \<and> now - lastRequestTime s < cooldownMs) = False"
      "(extractUrls txt = []) = False"
      using mayProceed_branches [OF free] urls by simp_all
    show ?thesis
      unfolding onMessage_unfold [OF auth] n if_False p [unfolded accepting_def] by simp
  qed
  with p np flag show ?thesis by blast
qed

lemma onMessage_final_session:
  assumes auth: "from_id ctx = Some userId" "userId \<noteq> 0" "message_text ctx = Some txt" "txt \<noteq> []"
      "isAllowed ac (Num userId)"
    and free: "mayProceed w userId now" and urls: "extractUrls txt \<noteq> []"
  shows "userSessions (snd (onMessage e config ac now later ctx w)) userId
           = Some \<lparr>isProcessing = False, lastRequestTime = later\<rparr>"
    and "fst (onMessage e config ac now later ctx w) \<noteq> Pending"
    and "fst (onMessage e config ac now later ctx w)
           = fst (processAll e config ctx (extractUrls txt) (accepting userId now w))"
proof -
  from onMessage_accepted [OF auth free urls, of e config later]
  obtain r w' where p: "processAll e config ctx (extractUrls txt) (accepting userId now w) = (r, w')"
    and np: "r \<noteq> Pending"
    and eq: "onMessage e config ac now later ctx w =
             (r, w'\<lparr>userSessions := (userSessions w')
                     (userId \<mapsto> \<lparr>isProcessing = False, lastRequestTime = later\<rparr>)\<rparr>)"
    by blast
  show "userSessions (snd (onMessage e config ac now later ctx w)) userId
           = Some \<lparr>isProcessing = False, lastRequestTime = later\<rparr>"
    by (simp add: eq)
  show "fst (onMessage e config ac now later ctx w) \<noteq> Pending"
    using np by (simp add: eq)
  show "fst (onMessage e config ac now later ctx w)
           = fst (processAll e config ctx (extractUrls txt) (accepting userId now w))"
    by (simp add: eq p)
qed

text \<open>
  C5 (as amended). For every authorised user and every text message: while the user's
  session is marked in progress the message is answered Busy; otherwise, less than the
  5-second cooldown after the last stamped time, TooSoon; both leave the sessions as
  they are. Otherwise a message without any URL is answered with the request for a
  valid URL and is not accepted, and a message with a URL is accepted: the flag is set
  and the time stamped before the first URL is processed, they stay so during the
  batch, and at its end the flag is cleared and the time stamped anew, so that a
  further message is TooSoon for five seconds from the completion of the batch.
\<close>

theorem session_gate:
  assumes auth: "from_id ctx = Some userId" "userId \<noteq> 0" "message_text ctx = Some txt" "txt \<noteq> []"
      "isAllowed ac (Num userId)"
  shows
   "((\<exists>s. userSessions w userId = Some s \<and> isProcessing s) \<longrightarrow>
       onMessage e config ac now later ctx w = telegram e (Reply WaitForCurrent) w) \<and>
    ((\<exists>s. userSessions w userId = Some s \<and> \<not> isProcessing s \<and>
          now - lastRequestTime s < cooldownMs) \<longrightarrow>
       onMessage e config ac now later ctx w = telegram e (Reply WaitAFewSeconds) w) \<and>
    (\<forall>c. userSessions (snd (telegram e c w)) = userSessions w) \<and>
    (mayProceed w userId now \<and> extractUrls txt = [] \<longrightarrow>
       onMessage e config ac now later ctx w = telegram e (Reply SendValidUrl) w) \<and>
    (mayProceed w userId now \<and> extractUrls txt \<noteq> [] \<longrightarrow>
       (\<exists>r w'. processAll e config ctx (extractUrls txt) (accepting userId now w) = (r, w') \<and>
           userSessions w' userId = Some \<lparr>isProcessing = True, lastRequestTime = now\<rparr> \<and>
           onMessage e config ac now later ctx w =
             (r, w'\<lparr>userSessions := (userSessions w')
                     (userId \<mapsto> \<lparr>isProcessing = False, lastRequestTime = later\<rparr>)\<rparr>)) \<and>
       (\<forall>e2 now2 later2. now2 - later < cooldownMs \<longrightarrow>
           onMessage e2 config ac now2 later2 ctx (snd (onMessage e config ac now later ctx w))
             = telegram e2 (Reply WaitAFewSeconds) (snd (onMessage e config ac now later ctx w))))"
proof (intro conjI impI allI)
  assume "\<exists>s. userSessions w userId = Some s \<and> isProcessing s"
  then show "onMessage e config ac now later ctx w = telegram e (Reply WaitForCurrent) w"
    unfolding onMessage_unfold [OF auth] by simp
next
  assume "\<exists>s. userSessions w userId = Some s \<and> \<not> isProcessing s \<and>
          now - lastRequestTime s < cooldownMs"
  then show "onMessage e config ac now later ctx w = telegram e (Reply WaitAFewSeconds) w"
    unfolding onMessage_unfold [OF auth] by auto
next
  fix c show "userSessions (snd (telegram e c w)) = userSessions w"
    using telegram_props [of e c w] by simp
next
  assume a: "mayProceed w userId now \<and> extractUrls txt = []"
  then have n: "(\<exists>s. userSessions w userId = Some s \<and> isProcessing s) = False"
      "(\<exists>s. userSessions w userId = Some s \<and> now - lastRequestTime s < cooldownMs) = False"
    using mayProceed_branches [of w userId now] by simp_all
  from a show "onMessage e config ac now later ctx w = telegram e (Reply SendValidUrl) w"
    unfolding onMessage_unfold [OF auth] n if_False by simp
next
  assume a: "mayProceed w userId now \<and> extractUrls txt \<noteq> []"
  then have free: "mayProceed w userId now" and urls: "extractUrls txt \<noteq> []" by simp_all
  from onMessage_accepted [OF auth free urls, of e config later]
  show "\<exists>r w'. processAll e config ctx (extractUrls txt) (accepting userId now w) = (r, w') \<and>
           userSessions w' userId = Some \<lparr>isProcessing = True, lastRequestTime = now\<rparr> \<and>
           onMessage e config ac now later ctx w =
             (r, w'\<lparr>userSessions := (userSessions w')
                     (userId \<mapsto> \<lparr>isProcessing = False, lastRequestTime = later\<rparr>)\<rparr>)"
    by blast
  fix e2 now2 later2
  assume soon: "now2 - later < cooldownMs"
  define w2 where "w2 = snd (onMessage e config ac now later ctx w)"
  have s: "userSessions w2 userId = Some \<lparr>isProcessing = False, lastRequestTime = later\<rparr>"
    unfolding w2_def by (rule onMessage_final_session(1) [OF auth free urls])
  show "onMessage e2 config ac now2 later2 ctx w2 = telegram e2 (Reply WaitAFewSeconds) w2"
    unfolding onMessage_unfold [OF auth] using s soon by simp
qed

text \<open>
  C10. For every accepted batch the handler comes to its \<open>finally\<close> block: it never
  stays pending, and whether the batch ends normally or an exception escapes
  \<open>processUrl\<close> (the handler then rethrows it), the user's session ends with the
  in-progress flag cleared and the time stamped anew, so the Busy test is false for the
  next message.
\<close>

theorem session_reset_in_finally:
  assumes auth: "from_id ctx = Some userId" "userId \<noteq> 0" "message_text ctx = Some txt" "txt \<noteq> []"
      "isAllowed ac (Num userId)"
    and free: "mayProceed w userId now" and urls: "extractUrls txt \<noteq> []"
  shows "fst (onMessage e config ac now later ctx w) \<noteq> Pending \<and>
         userSessions (snd (onMessage e config ac now later ctx w)) userId
           = Some \<lparr>isProcessing = False, lastRequestTime = later\<rparr> \<and>
         (\<forall>msg. fst (processAll e config ctx (extractUrls txt) (accepting userId now w)) = Thrown msg
            \<longrightarrow> fst (onMessage e config ac now later ctx w) = Thrown msg) \<and>
         \<not> (\<exists>s. userSessions (snd (onMessage e config ac now later ctx w)) userId = Some s \<and>
                isProcessing s)"
proof (intro conjI allI impI)
  show "fst (onMessage e config ac now later ctx w) \<noteq> Pending"
    by (rule onMessage_final_session(2) [OF auth free urls])
  show s: "userSessions (snd (onMessage e config ac now later ctx w)) userId
           = Some \<lparr>isProcessing = False, lastRequestTime = later\<rparr>"
    by (rule onMessage_final_session(1) [OF auth free urls])
  show "fst (onMessage e config ac now later ctx w) = Thrown msg"
    if "fst (processAll e config ctx (extractUrls txt) (accepting userId now w)) = Thrown msg"
    for msg
    using that onMessage_final_session(3) [OF auth free urls, of e config later] by simp
  show "\<not> (\<exists>s. userSessions (snd (onMessage e config ac now later ctx w)) userId = Some s \<and>
                isProcessing s)"
    unfolding s by simp
qed

lemmas handler_eval =
  onMessage_def isAllowed_def AccessControl_def trim_def cooldownMs_def
  extractUrls_def newSet_def textMessage_def accepting_def mayProceed_def replyFails_def

lemma urls_example:
  "extractUrls (js ''see https://a.io/x'') = [js ''https://a.io/x'']"
  by (simp add: extractUrls_def newSet_def regex_eval)

lemma no_urls_example: "extractUrls (js ''hello'') = []"
  by (simp add: extractUrls_def newSet_def regex_eval)

lemma allowed_example: "isAllowed (AccessControl (js ''7'')) (Num 7)"
  by (simp add: isAllowed_def AccessControl_def trim_def parseInt_def toNumber_def
        roundToDouble_def isWhiteSpace_def isDigit_def decimalValue_def js_def)

theorem session_reset_in_finally_witness:
  "mayProceed startWorld 7 1000 \<and>
   extractUrls (js ''see https://a.io/x'') = [js ''https://a.io/x''] \<and>
   fst (onMessage (demoEnv (\<lambda>k. clip) replyFails) defaultConfig (AccessControl (js ''7'')) 1000 9000
          (textMessage 7 (js ''see https://a.io/x'')) startWorld) = Thrown (js ''ETIMEDOUT'') \<and>
   userSessions (snd (onMessage (demoEnv (\<lambda>k. clip) replyFails) defaultConfig
          (AccessControl (js ''7'')) 1000 9000 (textMessage 7 (js ''see https://a.io/x''))
          startWorld)) 7
     = Some \<lparr>isProcessing = False, lastRequestTime = 9000\<rparr>"
proof -
  have auth: "from_id (textMessage 7 (js ''see https://a.io/x'')) = Some 7" "(7::int) \<noteq> 0"
    "message_text (textMessage 7 (js ''see https://a.io/x'')) = Some (js ''see https://a.io/x'')"
    "js ''see https://a.io/x'' \<noteq> []"
    by (simp_all add: textMessage_def js_def)
  have free: "mayProceed startWorld 7 1000"
    by (simp add: mayProceed_def startWorld_def)
  have urls: "extractUrls (js ''see https://a.io/x'') \<noteq> []"
    by (simp add: urls_example)
  have thrown: "fst (processAll (demoEnv (\<lambda>k. clip) replyFails) defaultConfig
      (textMessage 7 (js ''see https://a.io/x'')) (extractUrls (js ''see https://a.io/x''))
      (accepting 7 1000 startWorld)) = Thrown (js ''ETIMEDOUT'')"
    by (simp add: urls_example processUrl_def telegram_def demoEnv_def replyFails_def)
  note T = session_reset_in_finally [OF auth allowed_example free urls,
      of "demoEnv (\<lambda>k. clip) replyFails" defaultConfig 9000]
  from T thrown have "fst (onMessage (demoEnv (\<lambda>k. clip) replyFails) defaultConfig
      (AccessControl (js ''7'')) 1000 9000 (textMessage 7 (js ''see https://a.io/x'')) startWorld)
      = Thrown (js ''ETIMEDOUT'')"
    by blast
  with T free urls_example show ?thesis by blast
qed

theorem session_gate_witness:
  "onMessage (demoEnv (\<lambda>k. clip) noFault) defaultConfig (AccessControl (js ''7'')) 1000 9000
      (textMessage 7 (js ''see https://a.io/x''))
      (startWorld\<lparr>userSessions := [7 \<mapsto> \<lparr>isProcessing = True, lastRequestTime = 0\<rparr>]\<rparr>)
     = telegram (demoEnv (\<lambda>k. clip) noFault) (Reply WaitForCurrent)
         (startWorld\<lparr>userSessions := [7 \<mapsto> \<lparr>isProcessing = True, lastRequestTime = 0\<rparr>]\<rparr>) \<and>
   onMessage (demoEnv (\<lambda>k. clip) noFault) defaultConfig (AccessControl (js ''7'')) 1000 9000
      (textMessage 7 (js ''see https://a.io/x''))
      (startWorld\<lparr>userSessions := [7 \<mapsto> \<lparr>isProcessing = False, lastRequestTime = 0\<rparr>]\<rparr>)
     = telegram (demoEnv (\<lambda>k. clip) noFault) (Reply WaitAFewSeconds)
         (startWorld\<lparr>userSessions := [7 \<mapsto> \<lparr>isProcessing = False, lastRequestTime = 0\<rparr>]\<rparr>) \<and>
   onMessage (demoEnv (\<lambda>k. clip) noFault) defaultConfig (AccessControl (js ''7'')) 1000 9000
      (textMessage 7 (js ''hello'')) startWorld
     = telegram (demoEnv (\<lambda>k. clip) noFault) (Reply SendValidUrl) startWorld \<and>
   userSessions (snd (onMessage (demoEnv (\<lambda>k. clip) noFault) defaultConfig
      (AccessControl (js ''7'')) 1000 9000 (textMessage 7 (js ''see https://a.io/x'')) startWorld)) 7
     = Some \<lparr>isProcessing = False, lastRequestTime = 9000\<rparr> \<and>
   onMessage (demoEnv (\<lambda>k. clip) noFault) defaultConfig (AccessControl (js ''7'')) 12000 20000
      (textMessage 7 (js ''see https://a.io/x''))
      (snd (onMessage (demoEnv (\<lambda>k. clip) noFault) defaultConfig
         (AccessControl (js ''7'')) 1000 9000 (textMessage 7 (js ''see https://a.io/x'')) startWorld))
     = telegram (demoEnv (\<lambda>k. clip) noFault) (Reply WaitAFewSeconds)
         (snd (onMessage (demoEnv (\<lambda>k. clip) noFault) defaultConfig
           (AccessControl (js ''7'')) 1000 9000 (textMessage 7 (js ''see https://a.io/x''))
           startWorld))"
proof -
  have auth: "from_id (textMessage 7 t) = Some 7" "(7::int) \<noteq> 0"
    "message_text (textMessage 7 t) = Some t" for t
    by (simp_all add: textMessage_def)
  have ne: "js ''see https://a.io/x'' \<noteq> []" "js ''hello'' \<noteq> []"
    by (simp_all add: js_def)
  note G = session_gate [OF auth ne(1) allowed_example]
  note H = session_gate [OF auth ne(2) allowed_example]
  have free: "mayProceed startWorld 7 1000"
    by (simp add: mayProceed_def startWorld_def)
  have urls: "extractUrls (js ''see https://a.io/x'') \<noteq> []"
    by (simp add: urls_example)
  have busy: "\<exists>s. userSessions
      (startWorld\<lparr>userSessions := [7 \<mapsto> \<lparr>isProcessing = True, lastRequestTime = 0\<rparr>]\<rparr>) 7 = Some s \<and>
      isProcessing s"
    by simp
  have soon: "\<exists>s. userSessions
      (startWorld\<lparr>userSessions := [7 \<mapsto> \<lparr>isProcessing = False, lastRequestTime = 0\<rparr>]\<rparr>) 7 = Some s \<and>
      \<not> isProcessing s \<and> 1000 - lastRequestTime s < cooldownMs"
    by (simp add: cooldownMs_def)
  note a = G [where now = 1000, THEN conjunct1, THEN mp, OF busy]
  note b = G [where now = 1000, THEN conjunct2, THEN conjunct1, THEN mp, OF soon]
  note c = H [where now = 1000, THEN conjunct2, THEN conjunct2, THEN conjunct2, THEN conjunct1,
      THEN mp, OF conjI [OF free no_urls_example]]
  note d = G [where now = 1000 and w = startWorld and e = "demoEnv (\<lambda>k. clip) noFault"
      and config = defaultConfig and later = 9000, THEN conjunct2, THEN conjunct2, THEN conjunct2,
      THEN conjunct2, THEN mp, OF conjI [OF free urls]]
  from d
  have d1: "userSessions (snd (onMessage (demoEnv (\<lambda>k. clip) noFault) defaultConfig
      (AccessControl (js ''7'')) 1000 9000 (textMessage 7 (js ''see https://a.io/x'')) startWorld)) 7
     = Some \<lparr>isProcessing = False, lastRequestTime = 9000\<rparr>"
    by auto
  have "(12000::int) - 9000 < cooldownMs" by (simp add: cooldownMs_def)
  with d
  have d2: "onMessage (demoEnv (\<lambda>k. clip) noFault) defaultConfig (AccessControl (js ''7'')) 12000 20000
      (textMessage 7 (js ''see https://a.io/x''))
      (snd (onMessage (demoEnv (\<lambda>k. clip) noFault) defaultConfig
         (AccessControl (js ''7'')) 1000 9000 (textMessage 7 (js ''see https://a.io/x'')) startWorld))
     = telegram (demoEnv (\<lambda>k. clip) noFault) (Reply WaitAFewSeconds)
         (snd (onMessage (demoEnv (\<lambda>k. clip) noFault) defaultConfig
           (AccessControl (js ''7'')) 1000 9000 (textMessage 7 (js ''see https://a.io/x''))
           startWorld))"
    by blast
  from a b c d1 d2 show ?thesis by blast
qed

text \<open>
  C5 as stated fails: an authorised user with no session sends a text without a URL;
  the message is neither Busy nor TooSoon, yet it is not accepted, and no session is
  stamped. The same holds for a sender outside the allow-list, who is refused before
  any session check.
\<close>

theorem message_without_url_counterexample:
  "userSessions (snd (onMessage (demoEnv (\<lambda>k. clip) noFault) defaultConfig
          (AccessControl (js ''7'')) 1000 9000 (textMessage 7 (js ''hello'')) startWorld)) 7
     = None \<and>
   sent (snd (onMessage (demoEnv (\<lambda>k. clip) noFault) defaultConfig
          (AccessControl (js ''7'')) 1000 9000 (textMessage 7 (js ''hello'')) startWorld))
     = [Reply SendValidUrl] \<and>
   userSessions (snd (onMessage (demoEnv (\<lambda>k. clip) noFault) defaultConfig
          (AccessControl (js ''7'')) 1000 9000 (textMessage 8 (js ''see https://a.io/x''))
          startWorld)) 8
     = None \<and>
   sent (snd (onMessage (demoEnv (\<lambda>k. clip) noFault) defaultConfig
          (AccessControl (js ''7'')) 1000 9000 (textMessage 8 (js ''see https://a.io/x''))
          startWorld))
     = [Reply AccessDenied]"
proof -
  have "onMessage (demoEnv (\<lambda>k. clip) noFault) defaultConfig
          (AccessControl (js ''7'')) 1000 9000 (textMessage 7 (js ''hello'')) startWorld
      = telegram (demoEnv (\<lambda>k. clip) noFault) (Reply SendValidUrl) startWorld"
    using allowed_example no_urls_example
    by (simp add: onMessage_def textMessage_def startWorld_def js_def)
  moreover have "\<not> isAllowed (AccessControl (js ''7'')) (Num 8)"
    by (simp add: isAllowed_def AccessControl_def trim_def parseInt_def toNumber_def
          roundToDouble_def isWhiteSpace_def isDigit_def decimalValue_def js_def)
  then have "onMessage (demoEnv (\<lambda>k. clip) noFault) defaultConfig
          (AccessControl (js ''7'')) 1000 9000 (textMessage 8 (js ''see https://a.io/x''))
          startWorld
      = telegram (demoEnv (\<lambda>k. clip) noFault) (Reply AccessDenied) startWorld"
    by (simp add: onMessage_def textMessage_def js_def)
  ultimately show ?thesis
    by (simp add: telegram_def demoEnv_def noFault_def startWorld_def)
qed

end
